theory Spec2Isabelle
  imports Complex_Main "HOL-Library.Word"
begin

section \<open>JavaScript numbers\<close>

text \<open>
  A TypeScript \<open>number\<close> is modelled as a real number or one of the three special
  values of IEEE-754 arithmetic.  Rounding to 53 bits and the sign of zero are abstracted
  away: a finite value is an exact real, and zero behaves as \<open>+0\<close>.  Division by zero,
  \<open>NaN\<close> propagation and the infinities follow the language definition, so that a
  computation that would leave the finite numbers is visible in the model.
\<close>

datatype jsnum = Fin real | PInf | NInf | NaN

fun jsneg :: "jsnum \<Rightarrow> jsnum" where
  "jsneg (Fin a) = Fin (- a)"
| "jsneg PInf = NInf"
| "jsneg NInf = PInf"
| "jsneg NaN = NaN"

fun jsadd :: "jsnum \<Rightarrow> jsnum \<Rightarrow> jsnum" where
  "jsadd (Fin a) (Fin b) = Fin (a + b)"
| "jsadd NaN _ = NaN"
| "jsadd _ NaN = NaN"
| "jsadd PInf NInf = NaN"
| "jsadd NInf PInf = NaN"
| "jsadd PInf _ = PInf"
| "jsadd _ PInf = PInf"
| "jsadd NInf _ = NInf"
| "jsadd _ NInf = NInf"

definition jssub :: "jsnum \<Rightarrow> jsnum \<Rightarrow> jsnum" where
  "jssub x y = jsadd x (jsneg y)"

fun jsmul :: "jsnum \<Rightarrow> jsnum \<Rightarrow> jsnum" where
  "jsmul (Fin a) (Fin b) = Fin (a * b)"
| "jsmul NaN _ = NaN"
| "jsmul _ NaN = NaN"
| "jsmul PInf (Fin b) = (if b = 0 then NaN else if 0 < b then PInf else NInf)"
| "jsmul NInf (Fin b) = (if b = 0 then NaN else if 0 < b then NInf else PInf)"
| "jsmul (Fin a) PInf = (if a = 0 then NaN else if 0 < a then PInf else NInf)"
| "jsmul (Fin a) NInf = (if a = 0 then NaN else if 0 < a then NInf else PInf)"
| "jsmul PInf PInf = PInf"
| "jsmul NInf NInf = PInf"
| "jsmul PInf NInf = NInf"
| "jsmul NInf PInf = NInf"

fun jsdiv :: "jsnum \<Rightarrow> jsnum \<Rightarrow> jsnum" where
  "jsdiv (Fin a) (Fin b) =
     (if b = 0 then (if a = 0 then NaN else if 0 < a then PInf else NInf)
      else Fin (a / b))"
| "jsdiv NaN _ = NaN"
| "jsdiv _ NaN = NaN"
| "jsdiv (Fin a) PInf = Fin 0"
| "jsdiv (Fin a) NInf = Fin 0"
| "jsdiv PInf (Fin b) = (if 0 \<le> b then PInf else NInf)"
| "jsdiv NInf (Fin b) = (if 0 \<le> b then NInf else PInf)"
| "jsdiv PInf PInf = NaN"
| "jsdiv PInf NInf = NaN"
| "jsdiv NInf PInf = NaN"
| "jsdiv NInf NInf = NaN"

text \<open>\<open>Math.max\<close> and \<open>Math.min\<close> of two arguments: \<open>NaN\<close> if either is.\<close>

fun jsmax :: "jsnum \<Rightarrow> jsnum \<Rightarrow> jsnum" where
  "jsmax (Fin a) (Fin b) = Fin (max a b)"
| "jsmax NaN _ = NaN"
| "jsmax _ NaN = NaN"
| "jsmax PInf _ = PInf"
| "jsmax _ PInf = PInf"
| "jsmax NInf y = y"
| "jsmax x NInf = x"

fun jsmin :: "jsnum \<Rightarrow> jsnum \<Rightarrow> jsnum" where
  "jsmin (Fin a) (Fin b) = Fin (min a b)"
| "jsmin NaN _ = NaN"
| "jsmin _ NaN = NaN"
| "jsmin NInf _ = NInf"
| "jsmin _ NInf = NInf"
| "jsmin PInf y = y"
| "jsmin x PInf = x"

fun jsabs :: "jsnum \<Rightarrow> jsnum" where
  "jsabs (Fin a) = Fin \<bar>a\<bar>"
| "jsabs PInf = PInf"
| "jsabs NInf = PInf"
| "jsabs NaN = NaN"

text \<open>The comparisons \<open><\<close>, \<open>>\<close> and \<open>!==\<close>; a comparison with \<open>NaN\<close> is false,
  and \<open>NaN !== x\<close> is true.\<close>

fun jslt :: "jsnum \<Rightarrow> jsnum \<Rightarrow> bool" where
  "jslt (Fin a) (Fin b) = (a < b)"
| "jslt NaN _ = False"
| "jslt _ NaN = False"
| "jslt _ NInf = False"
| "jslt NInf _ = True"
| "jslt PInf _ = False"
| "jslt _ PInf = True"

definition jsgt :: "jsnum \<Rightarrow> jsnum \<Rightarrow> bool" where
  "jsgt x y = jslt y x"

definition jsne :: "jsnum \<Rightarrow> jsnum \<Rightarrow> bool" where
  "jsne x y = (x = NaN \<or> y = NaN \<or> x \<noteq> y)"

definition isNaN :: "jsnum \<Rightarrow> bool" where
  "isNaN x = (x = NaN)"

text \<open>\<open>Math.pow\<close>, case by case as the language defines \<open>Number::exponentiate\<close>.\<close>

definition isInteger :: "real \<Rightarrow> bool" where
  "isInteger e = (e = of_int \<lfloor>e\<rfloor>)"

definition isOddInteger :: "real \<Rightarrow> bool" where
  "isOddInteger e = (isInteger e \<and> odd \<lfloor>e\<rfloor>)"

definition finpow :: "real \<Rightarrow> real \<Rightarrow> jsnum" where
  "finpow x e =
     (if x = 0 then (if 0 < e then Fin 0 else PInf)
      else if 0 < x then Fin (x powr e)
      else if isInteger e then Fin (x powi \<lfloor>e\<rfloor>)
      else NaN)"

fun jspow :: "jsnum \<Rightarrow> jsnum \<Rightarrow> jsnum" where
  "jspow _ NaN = NaN"
| "jspow x (Fin e) =
     (if e = 0 then Fin 1
      else case x of
        NaN \<Rightarrow> NaN
      | PInf \<Rightarrow> (if 0 < e then PInf else Fin 0)
      | NInf \<Rightarrow> (if 0 < e then (if isOddInteger e then NInf else PInf) else Fin 0)
      | Fin a \<Rightarrow> finpow a e)"
| "jspow x PInf =
     (case x of
        NaN \<Rightarrow> NaN
      | Fin a \<Rightarrow> (if 1 < \<bar>a\<bar> then PInf else if \<bar>a\<bar> = 1 then NaN else Fin 0)
      | _ \<Rightarrow> PInf)"
| "jspow x NInf =
     (case x of
        NaN \<Rightarrow> NaN
      | Fin a \<Rightarrow> (if 1 < \<bar>a\<bar> then Fin 0 else if \<bar>a\<bar> = 1 then NaN else PInf)
      | _ \<Rightarrow> Fin 0)"

section \<open>Image analysis (image-analysis.ts)\<close>

text \<open>An object \<open>{r, g, b}\<close> of three numbers.\<close>

record rgb =
  chan_r :: jsnum
  chan_g :: jsnum
  chan_b :: jsnum

record histograms =
  hist_r :: "real list"
  hist_g :: "real list"
  hist_b :: "real list"
  hist_luminance :: "real list"

record dominantColor =
  dom_r :: jsnum
  dom_g :: jsnum
  dom_b :: jsnum
  percentage :: jsnum

record ImageAnalysis =
  averageColor :: rgb
  dominantColors :: "dominantColor list"
  brightness :: jsnum
  contrast :: jsnum
  saturation :: jsnum
  temperature :: jsnum
  histogram :: histograms

text \<open>
  An \<open>ImageData\<close>: the bytes of a \<open>Uint8ClampedArray\<close>, four per pixel (red, green, blue,
  alpha), and the dimensions.  The platform only builds it with positive dimensions and
  \<open>4 * width * height\<close> bytes.
\<close>

record ImageData =
  data :: "8 word list"
  width :: nat
  height :: nat

definition wellFormed :: "ImageData \<Rightarrow> bool" where
  "wellFormed img =
     (0 < width img \<and> 0 < height img \<and> length (data img) = 4 * width img * height img)"

text \<open>The pixels the loop \<open>for (i = 0; i < data.length; i += 4)\<close> visits.  (Bytes after the
  last whole pixel cannot occur in an \<open>ImageData\<close> and are left out.)\<close>

fun pixelsOf :: "8 word list \<Rightarrow> (8 word \<times> 8 word \<times> 8 word) list" where
  "pixelsOf (cr # cg # cb # ca # rest) = (cr, cg, cb) # pixelsOf rest"
| "pixelsOf _ = []"

text \<open>A byte as the fraction \<open>data[i] / 255\<close>.\<close>

definition unitOfByte :: "8 word \<Rightarrow> real" where
  "unitOfByte w = real (unat w) / 255"

text \<open>\<open>rgbToHsl\<close> and \<open>getLuminance\<close> are applied to such fractions only, so they are
  modelled on real numbers.\<close>

definition rgbToHsl :: "real \<Rightarrow> real \<Rightarrow> real \<Rightarrow> real \<times> real \<times> real" where
  "rgbToHsl r g b =
     (let mx = max (max r g) b;
          mn = min (min r g) b;
          l = (mx + mn) / 2
      in if mx = mn then (0, 0, l)
         else (let d = mx - mn;
                   s = (if 0.5 < l then d / (2 - mx - mn) else d / (mx + mn));
                   h = (if mx = r then ((g - b) / d + (if g < b then 6 else 0)) / 6
                        else if mx = g then ((b - r) / d + 2) / 6
                        else ((r - g) / d + 4) / 6)
               in (h, s, l)))"

definition getLuminance :: "real \<Rightarrow> real \<Rightarrow> real \<Rightarrow> real" where
  "getLuminance r g b = 0.299 * r + 0.587 * g + 0.114 * b"

text \<open>\<open>array[i]++\<close> on an array of counts, for an index inside the array.\<close>

definition bump :: "nat list \<Rightarrow> nat \<Rightarrow> nat list" where
  "bump h i = h[i := h ! i + 1]"

text \<open>
  The colour buckets: a \<open>Map\<close> in insertion order.  Its key is the text of the three
  quantised channels \<open>floor(c * 8) / 8\<close> with two decimals; the nine possible values of a
  channel have nine different texts, so the key is modelled as the three integers
  \<open>floor(c * 8)\<close>.
\<close>

type_synonym bucketKey = "nat \<times> nat \<times> nat"

fun bumpBucket :: "bucketKey \<Rightarrow> (bucketKey \<times> nat) list \<Rightarrow> (bucketKey \<times> nat) list" where
  "bumpBucket k [] = [(k, 1)]"
| "bumpBucket k ((k', n) # rest) =
     (if k = k' then (k', n + 1) # rest else (k', n) # bumpBucket k rest)"

text \<open>The accumulators of the first loop.\<close>

record accumulators =
  totalR :: real
  totalG :: real
  totalB :: real
  totalSaturation :: real
  totalLuminance :: real
  countR :: "nat list"
  countG :: "nat list"
  countB :: "nat list"
  countLuminance :: "nat list"
  colorBuckets :: "(bucketKey \<times> nat) list"

definition initialAccumulators :: accumulators where
  "initialAccumulators =
     \<lparr>totalR = 0, totalG = 0, totalB = 0, totalSaturation = 0, totalLuminance = 0,
      countR = replicate 256 0, countG = replicate 256 0, countB = replicate 256 0,
      countLuminance = replicate 256 0, colorBuckets = []\<rparr>"

definition pixelStep :: "8 word \<times> 8 word \<times> 8 word \<Rightarrow> accumulators \<Rightarrow> accumulators" where
  "pixelStep px acc =
     (case px of (cr, cg, cb) \<Rightarrow>
        (let r = unitOfByte cr;
             g = unitOfByte cg;
             b = unitOfByte cb;
             s = fst (snd (rgbToHsl r g b));
             lum = getLuminance r g b
         in \<lparr>totalR = totalR acc + r,
             totalG = totalG acc + g,
             totalB = totalB acc + b,
             totalSaturation = totalSaturation acc + s,
             totalLuminance = totalLuminance acc + lum,
             countR = bump (countR acc) (unat cr),
             countG = bump (countG acc) (unat cg),
             countB = bump (countB acc) (unat cb),
             countLuminance = bump (countLuminance acc) (nat \<lfloor>lum * 255\<rfloor>),
             colorBuckets =
               bumpBucket (nat \<lfloor>r * 8\<rfloor>, nat \<lfloor>g * 8\<rfloor>, nat \<lfloor>b * 8\<rfloor>) (colorBuckets acc)\<rparr>))"

text \<open>Reading \<open>lumValues[i]\<close>: \<open>undefined\<close>, which arithmetic turns into \<open>NaN\<close>, outside the
  array.\<close>

definition readAt :: "real list \<Rightarrow> nat \<Rightarrow> jsnum" where
  "readAt xs i = (if i < length xs then Fin (xs ! i) else NaN)"

text \<open>The five most frequent buckets; the sort is stable and puts the larger count first.\<close>

definition sortedColors :: "(bucketKey \<times> nat) list \<Rightarrow> nat \<Rightarrow> dominantColor list" where
  "sortedColors buckets pixelCount =
     map (\<lambda>(k, n). case k of (qr, qg, qb) \<Rightarrow>
            \<lparr>dom_r = Fin (real qr / 8), dom_g = Fin (real qg / 8), dom_b = Fin (real qb / 8),
             percentage = jsmul (jsdiv (Fin (real n)) (Fin (real pixelCount))) (Fin 100)\<rparr>)
       (take 5 (sort_key (\<lambda>(k, n). - int n) buckets))"

text \<open>The largest count of the four histograms together, and the normalisation by it.\<close>

definition maxHistValue :: "accumulators \<Rightarrow> nat" where
  "maxHistValue acc = Max (set (countR acc @ countG acc @ countB acc @ countLuminance acc))"

definition normalizeHistogram :: "nat \<Rightarrow> nat list \<Rightarrow> real list" where
  "normalizeHistogram m h = (if 0 < m then map (\<lambda>v. real v / real m) h else map real h)"

definition analyzeImageData :: "ImageData \<Rightarrow> ImageAnalysis" where
  "analyzeImageData imageData =
     (let pixelCount = width imageData * height imageData;
          pixels = pixelsOf (data imageData);
          acc = fold pixelStep pixels initialAccumulators;
          avgR = jsdiv (Fin (totalR acc)) (Fin (real pixelCount));
          avgG = jsdiv (Fin (totalG acc)) (Fin (real pixelCount));
          avgB = jsdiv (Fin (totalB acc)) (Fin (real pixelCount));
          avgSaturation = jsdiv (Fin (totalSaturation acc)) (Fin (real pixelCount));
          avgLuminance = jsdiv (Fin (totalLuminance acc)) (Fin (real pixelCount));
          lumValues = sort (map (\<lambda>(cr, cg, cb).
                        getLuminance (unitOfByte cr) (unitOfByte cg) (unitOfByte cb)) pixels);
          p5 = readAt lumValues (nat \<lfloor>real pixelCount * 0.05\<rfloor>);
          p95 = readAt lumValues (nat \<lfloor>real pixelCount * 0.95\<rfloor>);
          m = maxHistValue acc
      in \<lparr>averageColor = \<lparr>chan_r = avgR, chan_g = avgG, chan_b = avgB\<rparr>,
          dominantColors = sortedColors (colorBuckets acc) pixelCount,
          brightness = avgLuminance,
          contrast = jssub p95 p5,
          saturation = avgSaturation,
          temperature = jsdiv (jssub avgR avgB) (jsmax (jsmax avgR avgB) (Fin 0.01)),
          histogram =
            \<lparr>hist_r = normalizeHistogram m (countR acc),
             hist_g = normalizeHistogram m (countG acc),
             hist_b = normalizeHistogram m (countB acc),
             hist_luminance = normalizeHistogram m (countLuminance acc)\<rparr>\<rparr>)"

section \<open>The colour pipeline (lut-generator.ts)\<close>

record LUTParams =
  contrast :: jsnum
  saturation :: jsnum
  temperature :: jsnum
  tint :: jsnum
  shadows :: jsnum
  highlights :: jsnum
  lift :: rgb
  gamma :: rgb
  gain :: rgb

definition zeroRgb :: rgb where
  "zeroRgb = \<lparr>chan_r = Fin 0, chan_g = Fin 0, chan_b = Fin 0\<rparr>"

definition defaultParams :: LUTParams where
  "defaultParams =
     \<lparr>contrast = Fin 0, saturation = Fin 0, temperature = Fin 0, tint = Fin 0,
      shadows = Fin 0, highlights = Fin 0,
      lift = zeroRgb, gamma = zeroRgb, gain = zeroRgb\<rparr>"

definition clamp :: "jsnum \<Rightarrow> jsnum" where
  "clamp v = jsmax (Fin 0) (jsmin (Fin 1) v)"

definition contrastDenominator :: "jsnum \<Rightarrow> jsnum" where
  "contrastDenominator c = jssub (Fin 1) (jsmul c (Fin 0.99))"

definition applyContrast :: "jsnum \<Rightarrow> jsnum \<Rightarrow> jsnum" where
  "applyContrast v c =
     (let factor = jsdiv (jsadd (Fin 1) c) (contrastDenominator c)
      in clamp (jsadd (jsmul (jssub v (Fin 0.5)) factor) (Fin 0.5)))"

definition luma :: "jsnum \<Rightarrow> jsnum \<Rightarrow> jsnum \<Rightarrow> jsnum" where
  "luma r g b =
     jsadd (jsadd (jsmul (Fin 0.299) r) (jsmul (Fin 0.587) g)) (jsmul (Fin 0.114) b)"

definition applySaturation ::
  "jsnum \<Rightarrow> jsnum \<Rightarrow> jsnum \<Rightarrow> jsnum \<Rightarrow> jsnum \<times> jsnum \<times> jsnum" where
  "applySaturation r g b s =
     (let luminance = luma r g b;
          factor = jsadd (Fin 1) s
      in (clamp (jsadd luminance (jsmul (jssub r luminance) factor)),
          clamp (jsadd luminance (jsmul (jssub g luminance) factor)),
          clamp (jsadd luminance (jsmul (jssub b luminance) factor))))"

definition applyTemperature ::
  "jsnum \<Rightarrow> jsnum \<Rightarrow> jsnum \<Rightarrow> jsnum \<Rightarrow> jsnum \<Rightarrow> jsnum \<times> jsnum \<times> jsnum" where
  "applyTemperature r g b temp tnt =
     (let tempFactor = jsmul temp (Fin 0.1);
          tintFactor = jsmul tnt (Fin 0.05)
      in (clamp (jsadd r tempFactor),
          clamp (jssub g tintFactor),
          clamp (jssub b tempFactor)))"

definition gammaDenominator :: "jsnum \<Rightarrow> jsnum" where
  "gammaDenominator gammaVal = jsadd (Fin 1) (jsmul gammaVal (Fin 0.2))"

definition lggChannel :: "jsnum \<Rightarrow> jsnum \<Rightarrow> jsnum \<Rightarrow> jsnum \<Rightarrow> jsnum" where
  "lggChannel v liftVal gammaVal gainVal =
     (let result = jsadd v (jsmul (jsmul liftVal (Fin 0.1)) (jssub (Fin 1) v));
          gammaPower = jsdiv (Fin 1) (gammaDenominator gammaVal);
          result = jspow (jsmax (Fin 0) result) gammaPower;
          result = jsmul result (jsadd (Fin 1) (jsmul gainVal (Fin 0.2)))
      in clamp result)"

definition applyLiftGammaGain ::
  "jsnum \<Rightarrow> jsnum \<Rightarrow> jsnum \<Rightarrow> rgb \<Rightarrow> rgb \<Rightarrow> rgb \<Rightarrow> jsnum \<times> jsnum \<times> jsnum" where
  "applyLiftGammaGain r g b lft gam gn =
     (lggChannel r (chan_r lft) (chan_r gam) (chan_r gn),
      lggChannel g (chan_g lft) (chan_g gam) (chan_g gn),
      lggChannel b (chan_b lft) (chan_b gam) (chan_b gn))"

definition shChannel :: "jsnum \<Rightarrow> jsnum \<Rightarrow> jsnum \<Rightarrow> jsnum" where
  "shChannel sh hl v =
     (let v1 = (if jslt v (Fin 0.5) \<and> jsne sh (Fin 0)
                then (let shadowMask = jssub (Fin 1) (jsdiv v (Fin 0.5))
                      in clamp (jsadd v (jsmul (jsmul sh (Fin 0.15)) shadowMask)))
                else v)
      in (if jsgt v1 (Fin 0.5) \<and> jsne hl (Fin 0)
          then (let highlightMask = jsdiv (jssub v1 (Fin 0.5)) (Fin 0.5)
                in clamp (jsadd v1 (jsmul (jsmul hl (Fin 0.15)) highlightMask)))
          else v1))"

definition applyShadowsHighlights ::
  "jsnum \<Rightarrow> jsnum \<Rightarrow> jsnum \<Rightarrow> jsnum \<Rightarrow> jsnum \<Rightarrow> jsnum \<times> jsnum \<times> jsnum" where
  "applyShadowsHighlights r g b sh hl = (shChannel sh hl r, shChannel sh hl g, shChannel sh hl b)"

text \<open>The first four stages of \<open>transformColor\<close>: the triple that enters the saturation
  stage.\<close>

definition gradeBeforeSaturation ::
  "jsnum \<Rightarrow> jsnum \<Rightarrow> jsnum \<Rightarrow> LUTParams \<Rightarrow> jsnum \<times> jsnum \<times> jsnum" where
  "gradeBeforeSaturation rIn gIn bIn params =
     (case applyLiftGammaGain rIn gIn bIn (lift params) (gamma params) (gain params) of
        (r1, g1, b1) \<Rightarrow>
     (case applyShadowsHighlights r1 g1 b1 (shadows params) (highlights params) of
        (r2, g2, b2) \<Rightarrow>
     (case applyTemperature r2 g2 b2 (temperature params) (tint params) of
        (r3, g3, b3) \<Rightarrow>
       (applyContrast r3 (contrast params),
        applyContrast g3 (contrast params),
        applyContrast b3 (contrast params)))))"

definition transformColor ::
  "jsnum \<Rightarrow> jsnum \<Rightarrow> jsnum \<Rightarrow> LUTParams \<Rightarrow> jsnum \<times> jsnum \<times> jsnum" where
  "transformColor rIn gIn bIn params =
     (case gradeBeforeSaturation rIn gIn bIn params of
        (r4, g4, b4) \<Rightarrow> applySaturation r4 g4 b4 (saturation params))"

text \<open>A channel value or a parameter is in range when it is a finite number between the
  bounds.\<close>

definition inRange :: "real \<Rightarrow> real \<Rightarrow> jsnum \<Rightarrow> bool" where
  "inRange lo hi x = (case x of Fin v \<Rightarrow> lo \<le> v \<and> v \<le> hi | _ \<Rightarrow> False)"

definition validRgb :: "rgb \<Rightarrow> bool" where
  "validRgb c = (inRange (-1) 1 (chan_r c) \<and> inRange (-1) 1 (chan_g c) \<and> inRange (-1) 1 (chan_b c))"

definition validParams :: "LUTParams \<Rightarrow> bool" where
  "validParams p =
     (inRange (-1) 1 (contrast p) \<and> inRange (-1) 1 (saturation p) \<and>
      inRange (-1) 1 (temperature p) \<and> inRange (-1) 1 (tint p) \<and>
      inRange (-1) 1 (shadows p) \<and> inRange (-1) 1 (highlights p) \<and>
      validRgb (lift p) \<and> validRgb (gamma p) \<and> validRgb (gain p))"

definition neutralParams :: "LUTParams \<Rightarrow> bool" where
  "neutralParams p =
     (contrast p = Fin 0 \<and> saturation p = Fin 0 \<and> temperature p = Fin 0 \<and>
      tint p = Fin 0 \<and> shadows p = Fin 0 \<and> highlights p = Fin 0 \<and>
      lift p = zeroRgb \<and> gamma p = zeroRgb \<and> gain p = zeroRgb)"

subsection \<open>Compensation for the limited range and the transfer curve of HEVC\<close>

definition limitedToFull :: "jsnum \<Rightarrow> jsnum" where
  "limitedToFull v = clamp (jsdiv (jssub v (Fin 0.0627)) (jssub (Fin 0.9216) (Fin 0.0627)))"

definition fullToLimited :: "jsnum \<Rightarrow> jsnum" where
  "fullToLimited v = clamp (jsadd (jsmul v (jssub (Fin 0.9216) (Fin 0.0627))) (Fin 0.0627))"

definition applyHEVCGammaCompensation :: "jsnum \<Rightarrow> jsnum" where
  "applyHEVCGammaCompensation v =
     (let hevcGamma = Fin 1.96;
          standardGamma = Fin 2.2;
          linear = jspow (jsmax (Fin 0) v) hevcGamma
      in jspow linear (jsdiv (Fin 1) standardGamma))"

definition applyInverseHEVCGammaCompensation :: "jsnum \<Rightarrow> jsnum" where
  "applyInverseHEVCGammaCompensation v =
     (let hevcGamma = Fin 1.96;
          standardGamma = Fin 2.2;
          linear = jspow (jsmax (Fin 0) v) standardGamma
      in jspow linear (jsdiv (Fin 1) hevcGamma))"

definition transformColorHEVC ::
  "jsnum \<Rightarrow> jsnum \<Rightarrow> jsnum \<Rightarrow> LUTParams \<Rightarrow> jsnum \<times> jsnum \<times> jsnum" where
  "transformColorHEVC rIn gIn bIn params =
     (let r = applyHEVCGammaCompensation (limitedToFull rIn);
          g = applyHEVCGammaCompensation (limitedToFull gIn);
          b = applyHEVCGammaCompensation (limitedToFull bIn)
      in case transformColor r g b params of
           (rGraded, gGraded, bGraded) \<Rightarrow>
             (fullToLimited (applyInverseHEVCGammaCompensation rGraded),
              fullToLimited (applyInverseHEVCGammaCompensation gGraded),
              fullToLimited (applyInverseHEVCGammaCompensation bGraded)))"

subsection \<open>Rendering numbers\<close>

definition digitChar :: "nat \<Rightarrow> char" where
  "digitChar d = ''0123456789'' ! d"

text \<open>The decimal digits of a natural number, as \<open>String(n)\<close> gives them.\<close>

fun showNat :: "nat \<Rightarrow> string" where
  "showNat n = (if n < 10 then [digitChar n] else showNat (n div 10) @ [digitChar (n mod 10)])"

text \<open>
  \<open>Number.prototype.toFixed(6)\<close>: a value that is not finite is rendered by name; a finite
  one is rounded to the nearest multiple of \<open>10\<^sup>-\<^sup>6\<close> (the larger one on a tie), its
  digits are padded with zeros to at least seven, and the point is placed before the last
  six.  (For a magnitude of \<open>10\<^sup>2\<^sup>1\<close> or more the language switches to exponent notation;
  the model keeps positional digits there.  The pipeline clamps every value it renders.)
\<close>

definition fixedDigits :: "real \<Rightarrow> string" where
  "fixedDigits x =
     (let n = nat \<lfloor>x * 1000000 + 1 / 2\<rfloor>;
          m = showNat n;
          m = (if length m \<le> 6 then replicate (7 - length m) (CHR ''0'') @ m else m);
          k = length m
      in take (k - 6) m @ ''.'' @ drop (k - 6) m)"

definition toFixed6 :: "jsnum \<Rightarrow> string" where
  "toFixed6 x =
     (case x of
        NaN \<Rightarrow> ''NaN''
      | PInf \<Rightarrow> ''Infinity''
      | NInf \<Rightarrow> ''-Infinity''
      | Fin v \<Rightarrow> (if v < 0 then ''-'' @ fixedDigits (- v) else fixedDigits v))"

subsection \<open>The .cube file\<close>

datatype LUTOutputFormat = Standard | Hevc

text \<open>\<open>lines.join('\n')\<close>\<close>

fun joinLines :: "string list \<Rightarrow> string" where
  "joinLines [] = []"
| "joinLines [l] = l"
| "joinLines (l # ls) = l @ [CHR 0x0A] @ joinLines ls"

definition headerLines :: "string \<Rightarrow> nat \<Rightarrow> LUTOutputFormat \<Rightarrow> string list" where
  "headerLines title sz fmt =
     [''TITLE '' @ [CHR 0x22] @ title @ [CHR 0x22],
      '''',
      ''# Generated by LUT Generator''] @
     (if fmt = Hevc
      then [''# HEVC-Compatible: Optimized for Apple HEVC/H.265 footage'',
            ''# Compensates for limited range (16-235) and gamma differences'']
      else []) @
     [''# Compatible with: Final Cut Pro, Premiere Pro, DaVinci Resolve, After Effects'',
      '''',
      ''LUT_3D_SIZE '' @ showNat sz,
      '''',
      ''DOMAIN_MIN 0.0 0.0 0.0'',
      ''DOMAIN_MAX 1.0 1.0 1.0'',
      '''']"

text \<open>The input value of grid index \<open>i\<close> on one axis: \<open>i / (size - 1)\<close>.\<close>

definition gridCoord :: "nat \<Rightarrow> nat \<Rightarrow> jsnum" where
  "gridCoord sz i = jsdiv (Fin (real i)) (jssub (Fin (real sz)) (Fin 1))"

text \<open>The inputs the three nested loops visit, in the order they visit them: blue outermost,
  green in the middle, red innermost.\<close>

definition gridInputs :: "nat \<Rightarrow> (jsnum \<times> jsnum \<times> jsnum) list" where
  "gridInputs sz =
     concat (map (\<lambda>b.
       concat (map (\<lambda>g.
         map (\<lambda>r. (gridCoord sz r, gridCoord sz g, gridCoord sz b)) [0..<sz])
       [0..<sz]))
     [0..<sz])"

definition dataLine :: "LUTOutputFormat \<Rightarrow> LUTParams \<Rightarrow> jsnum \<times> jsnum \<times> jsnum \<Rightarrow> string" where
  "dataLine fmt params inp =
     (case inp of (rIn, gIn, bIn) \<Rightarrow>
        (case (if fmt = Hevc then transformColorHEVC rIn gIn bIn params
               else transformColor rIn gIn bIn params) of
           (rOut, gOut, bOut) \<Rightarrow> toFixed6 rOut @ '' '' @ toFixed6 gOut @ '' '' @ toFixed6 bOut))"

definition dataLines :: "LUTParams \<Rightarrow> nat \<Rightarrow> LUTOutputFormat \<Rightarrow> string list" where
  "dataLines params sz fmt = map (dataLine fmt params) (gridInputs sz)"

definition generateCubeLUT :: "LUTParams \<Rightarrow> string \<Rightarrow> nat \<Rightarrow> LUTOutputFormat \<Rightarrow> string" where
  "generateCubeLUT params title sz fmt =
     joinLines (headerLines title sz fmt @ dataLines params sz fmt)"

text \<open>The shape of a data line: three numerals of the form \<open>0.dddddd\<close> or \<open>1.000000\<close>,
  separated by single spaces.\<close>

definition isDigit :: "char \<Rightarrow> bool" where
  "isDigit c = (c \<in> set ''0123456789'')"

definition unitFixed6 :: "string \<Rightarrow> bool" where
  "unitFixed6 s =
     (\<exists>d ds. s = d # CHR ''.'' # ds \<and> length ds = 6 \<and> list_all isDigit ds \<and>
        (d = CHR ''0'' \<or> (d = CHR ''1'' \<and> ds = ''000000'')))"

definition isDataLine :: "string \<Rightarrow> bool" where
  "isDataLine s =
     (\<exists>a b c. s = a @ '' '' @ b @ '' '' @ c \<and> unitFixed6 a \<and> unitFixed6 b \<and> unitFixed6 c)"

definition isCommentOrBlank :: "string \<Rightarrow> bool" where
  "isCommentOrBlank l = (l = [] \<or> hd l = CHR ''#'')"

text \<open>The lines of a text: the pieces between its line feeds, as \<open>text.split('\n')\<close> gives
  them.  The code only joins lines; cutting the text again is what a reader of the file does,
  and the properties of the returned text are stated on its lines.\<close>

fun splitLines :: "string \<Rightarrow> string list" where
  "splitLines [] = [[]]"
| "splitLines (c # cs) =
     (if c = CHR 0x0A then [] # splitLines cs
      else (case splitLines cs of [] \<Rightarrow> [[c]] | l # ls \<Rightarrow> (c # l) # ls))"

text \<open>A parameter set whose \<open>gamma\<close> has a red channel outside \<open>[-1, 1]\<close>, and a title of three
  lines, the middle one shaped like a data line.\<close>

definition gammaOutOfRange :: LUTParams where
  "gammaOutOfRange = defaultParams\<lparr>gamma := \<lparr>chan_r = Fin (- 5), chan_g = Fin 0, chan_b = Fin 0\<rparr>\<rparr>"

definition threeLineTitle :: string where
  "threeLineTitle = ''x'' @ [CHR 0x0A] @ ''0.000000 0.000000 0.000000'' @ [CHR 0x0A] @ ''y''"

section \<open>Extraction of parameters from free text (parseAIResponse)\<close>

text \<open>
  A JavaScript string is a list of UTF-16 code units, here natural numbers.  The three
  character classes of the patterns, and the comparison of a pattern letter with an input
  code unit under the \<open>i\<close> flag (which, without the \<open>u\<close> flag, never identifies a code
  unit of 128 or more with an ASCII letter).
\<close>

type_synonym jsstring = "nat list"

definition jsstr :: "string \<Rightarrow> jsstring" where
  "jsstr s = map of_char s"

definition isSpace :: "nat \<Rightarrow> bool" where
  "isSpace c =
     (c = 0x09 \<or> c = 0x0A \<or> c = 0x0B \<or> c = 0x0C \<or> c = 0x0D \<or> c = 0x20 \<or> c = 0xA0 \<or>
      c = 0x1680 \<or> (0x2000 \<le> c \<and> c \<le> 0x200A) \<or> c = 0x2028 \<or> c = 0x2029 \<or>
      c = 0x202F \<or> c = 0x205F \<or> c = 0x3000 \<or> c = 0xFEFF)"

definition isColonOrSpace :: "nat \<Rightarrow> bool" where
  "isColonOrSpace c = (c = 0x3A \<or> isSpace c)"

definition isCommaOrSpace :: "nat \<Rightarrow> bool" where
  "isCommaOrSpace c = (c = 0x2C \<or> isSpace c)"

definition isSign :: "nat \<Rightarrow> bool" where
  "isSign c = (c = 0x2B \<or> c = 0x2D)"

definition isDecDigit :: "nat \<Rightarrow> bool" where
  "isDecDigit c = (0x30 \<le> c \<and> c \<le> 0x39)"

definition isDigitOrDot :: "nat \<Rightarrow> bool" where
  "isDigitOrDot c = (isDecDigit c \<or> c = 0x2E)"

definition ciEq :: "nat \<Rightarrow> nat \<Rightarrow> bool" where
  "ciEq k c = (c = k \<or> (0x61 \<le> k \<and> k \<le> 0x7A \<and> c + 0x20 = k))"

text \<open>A literal word of a pattern (written in lower case) at the start of the input; the
  result is the input after the word.\<close>

fun matchKeyword :: "jsstring \<Rightarrow> jsstring \<Rightarrow> jsstring option" where
  "matchKeyword [] s = Some s"
| "matchKeyword (k # ks) [] = None"
| "matchKeyword (k # ks) (c # cs) = (if ciEq k c then matchKeyword ks cs else None)"

text \<open>An optional single code unit, taken when it is there (\<open>s?\<close>, \<open>\(?\<close>).\<close>

definition skipOptional :: "nat \<Rightarrow> jsstring \<Rightarrow> jsstring" where
  "skipOptional k s = (case s of [] \<Rightarrow> s | c # cs \<Rightarrow> if ciEq k c then cs else s)"

text \<open>The capture group \<open>([+-]?[\d.]+)\<close>: the captured text and the input after it.\<close>

definition captureNumber :: "jsstring \<Rightarrow> (jsstring \<times> jsstring) option" where
  "captureNumber s =
     (let sgn = (case s of [] \<Rightarrow> [] | c # cs \<Rightarrow> if isSign c then [c] else []);
          s1 = drop (length sgn) s;
          body = takeWhile isDigitOrDot s1
      in if body = [] then None else Some (sgn @ body, dropWhile isDigitOrDot s1))"

text \<open>
  The scalar pattern \<open>/word s? [:\s]* ([+-]?[\d.]+)/i\<close> tried at the start of the input.
  Every quantifier is greedy and is followed by a class disjoint from the one it repeats,
  so giving back what a quantifier took never turns a failure into a match: the greedy
  run is the only candidate a backtracking matcher can succeed with.
\<close>

definition matchScalarAt :: "jsstring \<Rightarrow> bool \<Rightarrow> jsstring \<Rightarrow> jsstring option" where
  "matchScalarAt word optS s =
     (case matchKeyword word s of
        None \<Rightarrow> None
      | Some s1 \<Rightarrow>
          (let s2 = (if optS then skipOptional 0x73 s1 else s1);
               s3 = dropWhile isColonOrSpace s2
           in map_option fst (captureNumber s3)))"

text \<open>The triple pattern
  \<open>/word [:\s]* (?:rgb)? [:\s]* \(? (num) [,\s]+ (num) [,\s]+ (num) \)?/i\<close>.\<close>

definition matchRgbAt :: "jsstring \<Rightarrow> jsstring \<Rightarrow> (jsstring \<times> jsstring \<times> jsstring) option" where
  "matchRgbAt word s =
     (case matchKeyword word s of
        None \<Rightarrow> None
      | Some s1 \<Rightarrow>
          (let s2 = dropWhile isColonOrSpace s1;
               s3 = (case matchKeyword (jsstr ''rgb'') s2 of Some t \<Rightarrow> t | None \<Rightarrow> s2);
               s4 = dropWhile isColonOrSpace s3;
               s5 = skipOptional 0x28 s4
           in case captureNumber s5 of
                None \<Rightarrow> None
              | Some (n1, t1) \<Rightarrow>
                  (if takeWhile isCommaOrSpace t1 = [] then None
                   else case captureNumber (dropWhile isCommaOrSpace t1) of
                     None \<Rightarrow> None
                   | Some (n2, t2) \<Rightarrow>
                       (if takeWhile isCommaOrSpace t2 = [] then None
                        else case captureNumber (dropWhile isCommaOrSpace t2) of
                          None \<Rightarrow> None
                        | Some (n3, t3) \<Rightarrow> Some (n1, n2, n3)))))"

text \<open>\<open>String.prototype.match\<close> without the \<open>g\<close> flag: the match at the leftmost position
  where the pattern matches.\<close>

fun findFirst :: "(jsstring \<Rightarrow> 'a option) \<Rightarrow> jsstring \<Rightarrow> 'a option" where
  "findFirst m [] = m []"
| "findFirst m (c # cs) = (case m (c # cs) of Some r \<Rightarrow> Some r | None \<Rightarrow> findFirst m cs)"

text \<open>
  \<open>parseFloat\<close> on a captured text, which holds signs, digits and dots only: an optional
  sign, digits, and a fraction if a dot follows; \<open>NaN\<close> when there is no digit before the
  second dot.
\<close>

definition digitsToNat :: "jsstring \<Rightarrow> nat" where
  "digitsToNat ds = foldl (\<lambda>a c. 10 * a + (c - 0x30)) 0 ds"

definition parseFloat :: "jsstring \<Rightarrow> jsnum" where
  "parseFloat s =
     (let neg = (case s of [] \<Rightarrow> False | c # cs \<Rightarrow> c = 0x2D);
          t = (case s of [] \<Rightarrow> [] | c # cs \<Rightarrow> if isSign c then cs else s);
          ip = takeWhile isDecDigit t;
          r = dropWhile isDecDigit t;
          fp = (case r of [] \<Rightarrow> [] | c # cs \<Rightarrow> if c = 0x2E then takeWhile isDecDigit cs else [])
      in if ip = [] \<and> fp = [] then NaN
         else (let m = real (digitsToNat ip) + real (digitsToNat fp) / 10 ^ length fp
               in Fin (if neg then - m else m)))"

text \<open>The value stored for a scalar field and for one channel of a triple (the two
  expressions of the source that normalise a parsed number).\<close>

definition percentDivisor :: "jsnum \<Rightarrow> jsnum" where
  "percentDivisor v = (if jsgt (jsabs v) (Fin 1) then Fin 100 else Fin 1)"

definition normalizeScalar :: "jsnum \<Rightarrow> jsnum" where
  "normalizeScalar v =
     jsmul (clamp (jsdiv v (percentDivisor v))) (if jslt v (Fin 0) then Fin (- 1) else Fin 1)"

definition normalizeChannel :: "jsnum \<Rightarrow> jsnum" where
  "normalizeChannel v = jsmax (Fin (- 1)) (jsmin (Fin 1) (jsdiv v (percentDivisor v)))"

text \<open>\<open>Partial<LUTParams>\<close>: a dictionary from field names to numbers or triples.\<close>

datatype pval = Num jsnum | Rgb rgb

type_synonym partialParams = "string \<rightharpoonup> pval"

text \<open>The pattern tables: field name, literal word, and whether an \<open>s\<close> may follow.\<close>

definition patterns :: "(string \<times> string \<times> bool) list" where
  "patterns =
     [(''contrast'', ''contrast'', False),
      (''saturation'', ''saturation'', False),
      (''temperature'', ''temperature'', False),
      (''tint'', ''tint'', False),
      (''shadows'', ''shadow'', True),
      (''highlights'', ''highlight'', True)]"

definition rgbPatterns :: "(string \<times> string) list" where
  "rgbPatterns = [(''lift'', ''lift''), (''gamma'', ''gamma''), (''gain'', ''gain'')]"

definition scalarStep :: "jsstring \<Rightarrow> string \<times> string \<times> bool \<Rightarrow> partialParams \<Rightarrow> partialParams" where
  "scalarStep response pat params =
     (case pat of (key, word, optS) \<Rightarrow>
        (case findFirst (matchScalarAt (jsstr word) optS) response of
           None \<Rightarrow> params
         | Some cap \<Rightarrow>
             (let v = parseFloat cap
              in if \<not> isNaN v then params(key \<mapsto> Num (normalizeScalar v)) else params)))"

definition rgbStep :: "jsstring \<Rightarrow> string \<times> string \<Rightarrow> partialParams \<Rightarrow> partialParams" where
  "rgbStep response pat params =
     (case pat of (key, word) \<Rightarrow>
        (case findFirst (matchRgbAt (jsstr word)) response of
           None \<Rightarrow> params
         | Some (c1, c2, c3) \<Rightarrow>
             (let r = parseFloat c1; g = parseFloat c2; b = parseFloat c3
              in if \<not> isNaN r \<and> \<not> isNaN g \<and> \<not> isNaN b
                 then params(key \<mapsto> Rgb \<lparr>chan_r = normalizeChannel r,
                                          chan_g = normalizeChannel g,
                                          chan_b = normalizeChannel b\<rparr>)
                 else params)))"

definition parseAIResponse :: "jsstring \<Rightarrow> partialParams" where
  "parseAIResponse response =
     fold (rgbStep response) rgbPatterns (fold (scalarStep response) patterns Map.empty)"

text \<open>What an entry of the result can be: a scalar field holds a finite number in \<open>[0, 1]\<close>,
  a triple field holds three finite numbers in \<open>[-1, 1]\<close>.\<close>

definition entryOk :: "string \<Rightarrow> pval \<Rightarrow> bool" where
  "entryOk key val =
     (case val of
        Num v \<Rightarrow> key \<in> fst ` set patterns \<and> inRange 0 1 v
      | Rgb c \<Rightarrow> key \<in> fst ` set rgbPatterns \<and> validRgb c)"

definition entriesOk :: "partialParams \<Rightarrow> bool" where
  "entriesOk m = (\<forall>key val. m key = Some val \<longrightarrow> entryOk key val)"

section \<open>From an analysis to parameters (analysisToLUTParams)\<close>

text \<open>The expression \<open>Math.max(-1, Math.min(1, x))\<close> that closes every field.\<close>

definition clampSigned :: "jsnum \<Rightarrow> jsnum" where
  "clampSigned x = jsmax (Fin (- 1)) (jsmin (Fin 1) x)"

definition analysisToLUTParams :: "ImageAnalysis \<Rightarrow> LUTParams" where
  "analysisToLUTParams analysis =
     (let avg = averageColor analysis;
          bright = brightness analysis;
          liftR = jsmul (jssub (chan_r avg) (Fin 0.5)) (Fin 0.3);
          liftG = jsmul (jssub (chan_g avg) (Fin 0.5)) (Fin 0.3);
          liftB = jsmul (jssub (chan_b avg) (Fin 0.5)) (Fin 0.3);
          gammaR = jsmul (jssub (chan_r avg) (Fin 0.5)) (Fin 0.5);
          gammaG = jsmul (jssub (chan_g avg) (Fin 0.5)) (Fin 0.5);
          gammaB = jsmul (jssub (chan_b avg) (Fin 0.5)) (Fin 0.5);
          maxChannel = jsmax (jsmax (chan_r avg) (chan_g avg)) (chan_b avg);
          gainR = jsmul (jssub (jsdiv (chan_r avg) maxChannel) (Fin 1)) (Fin 0.3);
          gainG = jsmul (jssub (jsdiv (chan_g avg) maxChannel) (Fin 1)) (Fin 0.3);
          gainB = jsmul (jssub (jsdiv (chan_b avg) maxChannel) (Fin 1)) (Fin 0.3);
          contrastParam = jsmul (jssub (ImageAnalysis.contrast analysis) (Fin 0.5)) (Fin 0.6);
          saturationParam = jsmul (jssub (ImageAnalysis.saturation analysis) (Fin 0.3)) (Fin 1.5);
          temperatureParam = jsmul (ImageAnalysis.temperature analysis) (Fin 0.8);
          tintParam =
            jsmul (jssub (chan_g avg) (jsdiv (jsadd (chan_r avg) (chan_b avg)) (Fin 2))) (Fin 0.5);
          shadowsParam =
            (if jslt bright (Fin 0.4) then jsmul (jsneg (jssub (Fin 0.4) bright)) (Fin 0.5)
             else Fin 0);
          highlightsParam =
            (if jsgt bright (Fin 0.6) then jsmul (jssub bright (Fin 0.6)) (Fin 0.5) else Fin 0)
      in \<lparr>contrast = clampSigned contrastParam,
          saturation = clampSigned saturationParam,
          temperature = clampSigned temperatureParam,
          tint = clampSigned tintParam,
          shadows = clampSigned shadowsParam,
          highlights = clampSigned highlightsParam,
          lift = \<lparr>chan_r = clampSigned liftR, chan_g = clampSigned liftG,
                  chan_b = clampSigned liftB\<rparr>,
          gamma = \<lparr>chan_r = clampSigned gammaR, chan_g = clampSigned gammaG,
                   chan_b = clampSigned gammaB\<rparr>,
          gain = \<lparr>chan_r = clampSigned gainR, chan_g = clampSigned gainG,
                  chan_b = clampSigned gainB\<rparr>\<rparr>)"

definition blackPixel :: ImageData where
  "blackPixel = \<lparr>data = [0, 0, 0, 255], width = 1, height = 1\<rparr>"

definition twoPixels :: ImageData where
  "twoPixels = \<lparr>data = [0, 0, 0, 255, 255, 0, 0, 255], width = 2, height = 1\<rparr>"

text \<open>The counts after the first loop of \<open>analyzeImageData\<close>, and all bins of a result.\<close>

definition rawCounts :: "ImageData \<Rightarrow> accumulators" where
  "rawCounts img = fold pixelStep (pixelsOf (data img)) initialAccumulators"

definition allBins :: "histograms \<Rightarrow> real list" where
  "allBins H = hist_r H @ hist_g H @ hist_b H @ hist_luminance H"

section \<open>The pipeline in binary64 arithmetic\<close>

text \<open>
  The definitions above compute with exact real numbers.  A JavaScript engine computes
  with IEEE-754 binary64 numbers: the result of every arithmetic operation is rounded to
  the nearest number with a 53-bit significand, a tie going to the even significand.
  This section restates the pipeline with that rounding written out, for the properties
  that depend on it.
\<close>

text \<open>The nearest integer, a tie going to the even one.\<close>

definition roundEven :: "real \<Rightarrow> int" where
  "roundEven y =
     (let f = \<lfloor>y\<rfloor>; d = y - of_int f
      in if d < 1 / 2 then f else if 1 / 2 < d then f + 1 else if even f then f else f + 1)"

text \<open>The exponent of the unit in the last place of a binary64 number of the magnitude of
  \<open>x\<close>: 52 below the exponent of \<open>x\<close>, and never below that of the subnormal numbers.\<close>

definition ulpExp :: "real \<Rightarrow> int" where
  "ulpExp x = max (\<lfloor>log 2 \<bar>x\<bar>\<rfloor> - 52) (- 1074)"

definition rnd :: "real \<Rightarrow> real" where
  "rnd x = (if x = 0 then 0 else of_int (roundEven (x / 2 powi ulpExp x)) * 2 powi ulpExp x)"

text \<open>A real number that is a binary64 number: rounding leaves it as it is, and it is
  below the overflow threshold.\<close>

definition isDouble :: "real \<Rightarrow> bool" where
  "isDouble x = (rnd x = x \<and> \<bar>x\<bar> < 2 ^ 1024)"

text \<open>The exact result of an operation, delivered as a binary64 number; a result that
  rounds to \<open>2\<^sup>1\<^sup>0\<^sup>2\<^sup>4\<close> or beyond overflows to an infinity.\<close>

definition toDouble :: "jsnum \<Rightarrow> jsnum" where
  "toDouble v =
     (case v of
        Fin x \<Rightarrow> (let y = rnd x
                  in if 2 ^ 1024 \<le> \<bar>y\<bar> then (if 0 < y then PInf else NInf) else Fin y)
      | _ \<Rightarrow> v)"

definition dadd :: "jsnum \<Rightarrow> jsnum \<Rightarrow> jsnum" where
  "dadd x y = toDouble (jsadd x y)"

definition dsub :: "jsnum \<Rightarrow> jsnum \<Rightarrow> jsnum" where
  "dsub x y = toDouble (jssub x y)"

definition dmul :: "jsnum \<Rightarrow> jsnum \<Rightarrow> jsnum" where
  "dmul x y = toDouble (jsmul x y)"

definition ddiv :: "jsnum \<Rightarrow> jsnum \<Rightarrow> jsnum" where
  "ddiv x y = toDouble (jsdiv x y)"

text \<open>\<open>Math.pow\<close> is only required to approximate; it is taken here as correctly rounded.
  With the exponent 1, the only one the neutral parameters produce, it returns its
  base.\<close>

definition dpow :: "jsnum \<Rightarrow> jsnum \<Rightarrow> jsnum" where
  "dpow x y = toDouble (jspow x y)"

text \<open>A decimal literal of the source: the binary64 number nearest to it.  The literals
  \<open>0\<close>, \<open>1\<close> and \<open>0.5\<close> are binary64 numbers and are written as they are.\<close>

definition lit :: "real \<Rightarrow> jsnum" where
  "lit c = toDouble (Fin c)"

definition applyContrast64 :: "jsnum \<Rightarrow> jsnum \<Rightarrow> jsnum" where
  "applyContrast64 v c =
     (let factor = ddiv (dadd (Fin 1) c) (dsub (Fin 1) (dmul c (lit 0.99)))
      in clamp (dadd (dmul (dsub v (Fin 0.5)) factor) (Fin 0.5)))"

definition luma64 :: "jsnum \<Rightarrow> jsnum \<Rightarrow> jsnum \<Rightarrow> jsnum" where
  "luma64 r g b =
     dadd (dadd (dmul (lit 0.299) r) (dmul (lit 0.587) g)) (dmul (lit 0.114) b)"

definition applySaturation64 ::
  "jsnum \<Rightarrow> jsnum \<Rightarrow> jsnum \<Rightarrow> jsnum \<Rightarrow> jsnum \<times> jsnum \<times> jsnum" where
  "applySaturation64 r g b s =
     (let luminance = luma64 r g b;
          factor = dadd (Fin 1) s
      in (clamp (dadd luminance (dmul (dsub r luminance) factor)),
          clamp (dadd luminance (dmul (dsub g luminance) factor)),
          clamp (dadd luminance (dmul (dsub b luminance) factor))))"

definition applyTemperature64 ::
  "jsnum \<Rightarrow> jsnum \<Rightarrow> jsnum \<Rightarrow> jsnum \<Rightarrow> jsnum \<Rightarrow> jsnum \<times> jsnum \<times> jsnum" where
  "applyTemperature64 r g b temp tnt =
     (let tempFactor = dmul temp (lit 0.1);
          tintFactor = dmul tnt (lit 0.05)
      in (clamp (dadd r tempFactor),
          clamp (dsub g tintFactor),
          clamp (dsub b tempFactor)))"

definition lggChannel64 :: "jsnum \<Rightarrow> jsnum \<Rightarrow> jsnum \<Rightarrow> jsnum \<Rightarrow> jsnum" where
  "lggChannel64 v liftVal gammaVal gainVal =
     (let result = dadd v (dmul (dmul liftVal (lit 0.1)) (dsub (Fin 1) v));
          gammaPower = ddiv (Fin 1) (dadd (Fin 1) (dmul gammaVal (lit 0.2)));
          result = dpow (jsmax (Fin 0) result) gammaPower;
          result = dmul result (dadd (Fin 1) (dmul gainVal (lit 0.2)))
      in clamp result)"

definition applyLiftGammaGain64 ::
  "jsnum \<Rightarrow> jsnum \<Rightarrow> jsnum \<Rightarrow> rgb \<Rightarrow> rgb \<Rightarrow> rgb \<Rightarrow> jsnum \<times> jsnum \<times> jsnum" where
  "applyLiftGammaGain64 r g b lft gam gn =
     (lggChannel64 r (chan_r lft) (chan_r gam) (chan_r gn),
      lggChannel64 g (chan_g lft) (chan_g gam) (chan_g gn),
      lggChannel64 b (chan_b lft) (chan_b gam) (chan_b gn))"

definition shChannel64 :: "jsnum \<Rightarrow> jsnum \<Rightarrow> jsnum \<Rightarrow> jsnum" where
  "shChannel64 sh hl v =
     (let v1 = (if jslt v (Fin 0.5) \<and> jsne sh (Fin 0)
                then (let shadowMask = dsub (Fin 1) (ddiv v (Fin 0.5))
                      in clamp (dadd v (dmul (dmul sh (lit 0.15)) shadowMask)))
                else v)
      in (if jsgt v1 (Fin 0.5) \<and> jsne hl (Fin 0)
          then (let highlightMask = ddiv (dsub v1 (Fin 0.5)) (Fin 0.5)
                in clamp (dadd v1 (dmul (dmul hl (lit 0.15)) highlightMask)))
          else v1))"

definition applyShadowsHighlights64 ::
  "jsnum \<Rightarrow> jsnum \<Rightarrow> jsnum \<Rightarrow> jsnum \<Rightarrow> jsnum \<Rightarrow> jsnum \<times> jsnum \<times> jsnum" where
  "applyShadowsHighlights64 r g b sh hl =
     (shChannel64 sh hl r, shChannel64 sh hl g, shChannel64 sh hl b)"

definition transformColor64 ::
  "jsnum \<Rightarrow> jsnum \<Rightarrow> jsnum \<Rightarrow> LUTParams \<Rightarrow> jsnum \<times> jsnum \<times> jsnum" where
  "transformColor64 rIn gIn bIn params =
     (case applyLiftGammaGain64 rIn gIn bIn (lift params) (gamma params) (gain params) of
        (r1, g1, b1) \<Rightarrow>
     (case applyShadowsHighlights64 r1 g1 b1 (shadows params) (highlights params) of
        (r2, g2, b2) \<Rightarrow>
     (case applyTemperature64 r2 g2 b2 (temperature params) (tint params) of
        (r3, g3, b3) \<Rightarrow>
       applySaturation64 (applyContrast64 r3 (contrast params))
         (applyContrast64 g3 (contrast params))
         (applyContrast64 b3 (contrast params))
         (saturation params))))"

section \<open>Properties of the pipeline\<close>

lemma inRangeE: "inRange lo hi x \<Longrightarrow> \<exists>v. x = Fin v \<and> lo \<le> v \<and> v \<le> hi"
  by (cases x) (simp_all add: inRange_def)

lemma clamp_Fin: "clamp (Fin v) = Fin (max 0 (min 1 v))"
  by (simp add: clamp_def)

lemma lggChannel_neutral:
  assumes "0 \<le> v" "v \<le> 1"
  shows "lggChannel (Fin v) (Fin 0) (Fin 0) (Fin 0) = Fin v"
  using assms by (simp add: lggChannel_def gammaDenominator_def jssub_def finpow_def clamp_Fin)

lemma shChannel_neutral: "shChannel (Fin 0) (Fin 0) (Fin v) = Fin v"
  by (simp add: shChannel_def jsne_def)

lemma applyContrast_neutral:
  assumes "0 \<le> v" "v \<le> 1"
  shows "applyContrast (Fin v) (Fin 0) = Fin v"
  using assms by (simp add: applyContrast_def contrastDenominator_def jssub_def clamp_Fin)

lemma applySaturation_neutral:
  assumes "0 \<le> x" "x \<le> 1" "0 \<le> y" "y \<le> 1" "0 \<le> z" "z \<le> 1"
  shows "applySaturation (Fin x) (Fin y) (Fin z) (Fin 0) = (Fin x, Fin y, Fin z)"
  using assms by (simp add: applySaturation_def luma_def jssub_def clamp_Fin Let_def)

lemma applyTemperature_neutral:
  assumes "0 \<le> x" "x \<le> 1" "0 \<le> y" "y \<le> 1" "0 \<le> z" "z \<le> 1"
  shows "applyTemperature (Fin x) (Fin y) (Fin z) (Fin 0) (Fin 0) = (Fin x, Fin y, Fin z)"
  using assms by (simp add: applyTemperature_def jssub_def clamp_Fin)

lemma transformColor_neutral_Fin:
  assumes "0 \<le> x" "x \<le> 1" "0 \<le> y" "y \<le> 1" "0 \<le> z" "z \<le> 1" "neutralParams p"
  shows "transformColor (Fin x) (Fin y) (Fin z) p = (Fin x, Fin y, Fin z)"
  using assms
  by (simp add: transformColor_def gradeBeforeSaturation_def neutralParams_def zeroRgb_def
      applyLiftGammaGain_def applyShadowsHighlights_def lggChannel_neutral shChannel_neutral
      applyTemperature_neutral applyContrast_neutral applySaturation_neutral)

subsection \<open>Closure of the pipeline\<close>

lemma inRange_Fin: "inRange lo hi (Fin v) = (lo \<le> v \<and> v \<le> hi)"
  by (simp add: inRange_def)

lemma inRange_clamp_Fin: "inRange 0 1 (clamp (Fin v))"
  by (simp add: clamp_Fin inRange_Fin)


lemma gammaDenominator_pos:
  assumes "- 1 \<le> gm" "gm \<le> 1"
  shows "gammaDenominator (Fin gm) = Fin (1 + gm * 0.2)" and "0 < 1 + gm * (0.2::real)"
  using assms by (simp_all add: gammaDenominator_def)

lemma contrastDenominator_pos:
  assumes "- 1 \<le> c" "c \<le> 1"
  shows "contrastDenominator (Fin c) = Fin (1 - c * 0.99)" and "0 < 1 - c * (0.99::real)"
  using assms by (simp_all add: contrastDenominator_def jssub_def)

lemma jspow_nonneg_pos:
  assumes "0 \<le> x" "0 < e"
  shows "jspow (Fin x) (Fin e) = Fin (x powr e)"
  using assms by (simp add: finpow_def)

lemma lggChannel_closed:
  assumes "inRange (-1) 1 gm"
  shows "inRange 0 1 (lggChannel (Fin v) (Fin l) gm (Fin gn))"
proof -
  from assms obtain m where m: "gm = Fin m" "- 1 \<le> m" "m \<le> 1" using inRangeE by blast
  have d: "gammaDenominator gm = Fin (1 + m * 0.2)" and dpos: "0 < 1 + m * (0.2::real)"
    using gammaDenominator_pos [OF m(2,3)] m(1) by simp_all
  have e: "jsdiv (Fin 1) (gammaDenominator gm) = Fin (1 / (1 + m * 0.2))"
    using d dpos by simp
  have epos: "0 < 1 / (1 + m * (0.2::real))" using dpos by simp
  show ?thesis
    unfolding lggChannel_def Let_def e jssub_def
    by (simp only: jsneg.simps jsadd.simps jsmul.simps jsmax.simps
        jspow_nonneg_pos [OF max.cobounded1 epos] inRange_clamp_Fin)
qed

lemma shChannel_closed:
  assumes "inRange 0 1 v"
  shows "inRange 0 1 (shChannel (Fin s) (Fin h) v)"
proof -
  from assms obtain x where x: "v = Fin x" using inRangeE by blast
  show ?thesis
    using assms unfolding x shChannel_def Let_def jssub_def jsgt_def
    by (simp add: clamp_Fin inRange_Fin)
qed

lemma applyContrast_closed:
  assumes "inRange (-1) 1 c"
  shows "inRange 0 1 (applyContrast (Fin v) c)"
proof -
  from assms obtain k where k: "c = Fin k" "- 1 \<le> k" "k \<le> 1" using inRangeE by blast
  have d: "contrastDenominator c = Fin (1 - k * 0.99)" and dpos: "0 < 1 - k * (0.99::real)"
    using contrastDenominator_pos [OF k(2,3)] k(1) by simp_all
  have f: "jsdiv (jsadd (Fin 1) c) (contrastDenominator c) = Fin ((1 + k) / (1 - k * 0.99))"
    using dpos d unfolding k(1) by simp
  show ?thesis
    unfolding applyContrast_def Let_def f jssub_def
    by (simp only: jsneg.simps jsadd.simps jsmul.simps inRange_clamp_Fin)
qed



lemma inRange_finite: "inRange lo hi x \<Longrightarrow> \<exists>v. x = Fin v"
  by (cases x) (simp_all add: inRange_def)

lemma validRgb_finite:
  "validRgb c \<Longrightarrow> \<exists>x y z. chan_r c = Fin x \<and> chan_g c = Fin y \<and> chan_b c = Fin z"
  unfolding validRgb_def by (meson inRange_finite)

lemma transformColor_closed:
  assumes "inRange 0 1 r" "inRange 0 1 g" "inRange 0 1 b" "validParams p"
  shows "\<exists>x y z. transformColor r g b p = (Fin x, Fin y, Fin z) \<and>
           0 \<le> x \<and> x \<le> 1 \<and> 0 \<le> y \<and> y \<le> 1 \<and> 0 \<le> z \<and> z \<le> 1"
proof -
  obtain r0 g0 b0 where in0: "r = Fin r0" "g = Fin g0" "b = Fin b0"
    using inRangeE [OF assms(1)] inRangeE [OF assms(2)] inRangeE [OF assms(3)] by blast
  have vp: "validRgb (lift p)" "validRgb (gamma p)" "validRgb (gain p)"
    "inRange (-1) 1 (shadows p)" "inRange (-1) 1 (highlights p)"
    "inRange (-1) 1 (temperature p)" "inRange (-1) 1 (tint p)"
    "inRange (-1) 1 (contrast p)" "inRange (-1) 1 (saturation p)"
    using assms(4) by (simp_all add: validParams_def)
  obtain lr lg lb where l: "chan_r (lift p) = Fin lr" "chan_g (lift p) = Fin lg"
      "chan_b (lift p) = Fin lb"
    using validRgb_finite [OF vp(1)] by blast
  obtain nr ng nb where n: "chan_r (gain p) = Fin nr" "chan_g (gain p) = Fin ng"
      "chan_b (gain p) = Fin nb"
    using validRgb_finite [OF vp(3)] by blast
  have gm: "inRange (-1) 1 (chan_r (gamma p))" "inRange (-1) 1 (chan_g (gamma p))"
      "inRange (-1) 1 (chan_b (gamma p))"
    using vp(2) by (simp_all add: validRgb_def)
  obtain sh hl tp tn st where sc: "shadows p = Fin sh" "highlights p = Fin hl"
      "temperature p = Fin tp" "tint p = Fin tn" "saturation p = Fin st"
    using inRange_finite [OF vp(4)] inRange_finite [OF vp(5)] inRange_finite [OF vp(6)]
      inRange_finite [OF vp(7)] inRange_finite [OF vp(9)] by blast
  define r1 where "r1 = lggChannel r (chan_r (lift p)) (chan_r (gamma p)) (chan_r (gain p))"
  define g1 where "g1 = lggChannel g (chan_g (lift p)) (chan_g (gamma p)) (chan_g (gain p))"
  define b1 where "b1 = lggChannel b (chan_b (lift p)) (chan_b (gamma p)) (chan_b (gain p))"
  have s1: "inRange 0 1 r1" "inRange 0 1 g1" "inRange 0 1 b1"
    unfolding r1_def g1_def b1_def in0 l n
    by (rule lggChannel_closed [OF gm(1)] lggChannel_closed [OF gm(2)]
        lggChannel_closed [OF gm(3)])+
  define r2 where "r2 = shChannel (shadows p) (highlights p) r1"
  define g2 where "g2 = shChannel (shadows p) (highlights p) g1"
  define b2 where "b2 = shChannel (shadows p) (highlights p) b1"
  have s2: "inRange 0 1 r2" "inRange 0 1 g2" "inRange 0 1 b2"
    unfolding r2_def g2_def b2_def sc
    by (rule shChannel_closed [OF s1(1)] shChannel_closed [OF s1(2)]
        shChannel_closed [OF s1(3)])+
  obtain x2 y2 z2 where f2: "r2 = Fin x2" "g2 = Fin y2" "b2 = Fin z2"
    using inRange_finite [OF s2(1)] inRange_finite [OF s2(2)] inRange_finite [OF s2(3)] by blast
  obtain x3 y3 z3 where f3: "applyTemperature r2 g2 b2 (temperature p) (tint p)
      = (Fin x3, Fin y3, Fin z3)"
    unfolding f2 sc applyTemperature_def Let_def jssub_def by (simp add: clamp_Fin)
  have s4: "inRange 0 1 (applyContrast (Fin x3) (contrast p))"
    "inRange 0 1 (applyContrast (Fin y3) (contrast p))"
    "inRange 0 1 (applyContrast (Fin z3) (contrast p))"
    by (rule applyContrast_closed [OF vp(8)])+
  obtain x4 y4 z4 where f4: "applyContrast (Fin x3) (contrast p) = Fin x4"
    "applyContrast (Fin y3) (contrast p) = Fin y4" "applyContrast (Fin z3) (contrast p) = Fin z4"
    using inRange_finite [OF s4(1)] inRange_finite [OF s4(2)] inRange_finite [OF s4(3)] by blast
  have pre: "gradeBeforeSaturation r g b p = (Fin x4, Fin y4, Fin z4)"
    unfolding gradeBeforeSaturation_def applyLiftGammaGain_def applyShadowsHighlights_def
    using f3 f4 by (simp add: r1_def g1_def b1_def r2_def g2_def b2_def)
  show ?thesis
    unfolding transformColor_def pre sc applySaturation_def Let_def luma_def jssub_def
    by (simp add: clamp_Fin)
qed

text \<open>
  Claim C2.  For every input triple in the unit cube and every valid parameter set (all
  fields finite and in \<open>[-1, 1]\<close>) each output channel of \<open>transformColor\<close> is a finite
  number in \<open>[0, 1]\<close>: no stage leaves the finite numbers, and the denominator of the
  contrast stage, \<open>1 - contrast * 0.99\<close>, is a positive finite number, hence never zero.
\<close>

theorem C2_closure:
  assumes "inRange 0 1 r" "inRange 0 1 g" "inRange 0 1 b" "validParams p"
  shows "(\<exists>x y z. transformColor r g b p = (Fin x, Fin y, Fin z) \<and>
            0 \<le> x \<and> x \<le> 1 \<and> 0 \<le> y \<and> y \<le> 1 \<and> 0 \<le> z \<and> z \<le> 1) \<and>
         (\<exists>d. contrastDenominator (contrast p) = Fin d \<and> 0 < d)"
proof -
  from assms(4) have "inRange (-1) 1 (contrast p)" by (simp add: validParams_def)
  then obtain k where k: "contrast p = Fin k" "- 1 \<le> k" "k \<le> 1" using inRangeE by blast
  have "contrastDenominator (contrast p) = Fin (1 - k * 0.99) \<and> 0 < 1 - k * (0.99::real)"
    using contrastDenominator_pos [OF k(2,3)] k(1) by simp
  then show ?thesis using transformColor_closed [OF assms] by blast
qed

theorem C2_closure_witness:
  "inRange 0 1 (Fin (1/2)) \<and> inRange 0 1 (Fin 0) \<and> inRange 0 1 (Fin 1) \<and>
   validParams (defaultParams\<lparr>contrast := Fin 1\<rparr>) \<and>
   (\<exists>x y z. transformColor (Fin (1/2)) (Fin 0) (Fin 1) (defaultParams\<lparr>contrast := Fin 1\<rparr>)
              = (Fin x, Fin y, Fin z) \<and>
            0 \<le> x \<and> x \<le> 1 \<and> 0 \<le> y \<and> y \<le> 1 \<and> 0 \<le> z \<and> z \<le> 1) \<and>
   (\<exists>d. contrastDenominator (contrast (defaultParams\<lparr>contrast := Fin 1\<rparr>)) = Fin d \<and> 0 < d)"
proof -
  have a: "inRange 0 1 (Fin (1/2))" and b: "inRange 0 1 (Fin 0)" and c: "inRange 0 1 (Fin 1)"
    by (simp_all add: inRange_def)
  have v: "validParams (defaultParams\<lparr>contrast := Fin 1\<rparr>)"
    by (simp add: validParams_def defaultParams_def validRgb_def zeroRgb_def inRange_def)
  show ?thesis using a b c v C2_closure [OF a b c v] by simp
qed

subsection \<open>Full desaturation\<close>

lemma luma_NaN: "luma NaN g b = NaN" "luma r NaN b = NaN" "luma r g NaN = NaN"
  by (cases r; cases g; cases b; simp add: luma_def)+





subsection \<open>The HEVC compensation around a neutral pipeline\<close>

lemma powr_unit:
  assumes "0 \<le> (a::real)" "a \<le> 1" "0 < e"
  shows "0 \<le> a powr e" and "a powr e \<le> 1"
proof -
  show "0 \<le> a powr e" by simp
  have "a powr e \<le> 1 powr e" using assms by (intro powr_mono2) simp_all
  then show "a powr e \<le> 1" by simp
qed

lemma limitedToFull_Fin:
  "limitedToFull (Fin x) = Fin (max 0 (min 1 ((x - 0.0627) / 0.8589)))"
  by (simp add: limitedToFull_def jssub_def clamp_Fin)

lemma applyHEVCGammaCompensation_Fin:
  assumes "0 \<le> a"
  shows "applyHEVCGammaCompensation (Fin a) = Fin ((a powr 1.96) powr (1 / 2.2))"
proof -
  have 1: "jspow (Fin a) (Fin 1.96) = Fin (a powr 1.96)"
    using assms by (intro jspow_nonneg_pos) simp_all
  have 2: "jspow (Fin (a powr 1.96)) (Fin (1 / 2.2)) = Fin ((a powr 1.96) powr (1 / 2.2))"
    by (intro jspow_nonneg_pos) simp_all
  show ?thesis
    using assms 1 2 by (simp add: applyHEVCGammaCompensation_def max_def)
qed

lemma applyInverseHEVCGammaCompensation_Fin:
  assumes "0 \<le> a"
  shows "applyInverseHEVCGammaCompensation (Fin a) = Fin ((a powr 2.2) powr (1 / 1.96))"
proof -
  have 1: "jspow (Fin a) (Fin 2.2) = Fin (a powr 2.2)"
    using assms by (intro jspow_nonneg_pos) simp_all
  have 2: "jspow (Fin (a powr 2.2)) (Fin (1 / 1.96)) = Fin ((a powr 2.2) powr (1 / 1.96))"
    by (intro jspow_nonneg_pos) simp_all
  show ?thesis
    using assms 1 2 by (simp add: applyInverseHEVCGammaCompensation_def max_def)
qed

lemma fullToLimited_Fin:
  "fullToLimited (Fin a) = Fin (max 0 (min 1 (a * 0.8589 + 0.0627)))"
  by (simp add: fullToLimited_def jssub_def clamp_Fin)

lemma gamma_round_trip:
  assumes "0 \<le> (a::real)"
  shows "(((a powr 1.96) powr (1 / 2.2)) powr 2.2) powr (1 / 1.96) = a"
proof -
  have "(((a powr 1.96) powr (1 / 2.2)) powr 2.2) powr (1 / 1.96)
      = a powr (1.96 * (1 / 2.2) * 2.2 * (1 / 1.96))"
    by (simp only: powr_powr)
  also have "\<dots> = a powr 1" by simp
  also have "\<dots> = a" using assms by simp
  finally show ?thesis .
qed

lemma legal_range_round_trip:
  "max 0 (min 1 (max 0 (min 1 ((x - 0.0627) / 0.8589)) * 0.8589 + 0.0627))
     = max 0.0627 (min 0.9216 (x::real))"
  by (simp add: max_def min_def field_simps)

lemma hevc_channel_neutral:
  fixes x :: real
  defines "a \<equiv> max 0 (min 1 ((x - 0.0627) / 0.8589))"
  defines "c \<equiv> (a powr 1.96) powr (1 / 2.2)"
  shows "applyHEVCGammaCompensation (limitedToFull (Fin x)) = Fin c"
    and "0 \<le> c" and "c \<le> 1"
    and "fullToLimited (applyInverseHEVCGammaCompensation (Fin c))
           = Fin (max 0.0627 (min 0.9216 x))"
proof -
  have a: "0 \<le> a" "a \<le> 1" by (simp_all add: a_def)
  show 1: "applyHEVCGammaCompensation (limitedToFull (Fin x)) = Fin c"
    unfolding limitedToFull_Fin c_def a_def [symmetric]
    by (rule applyHEVCGammaCompensation_Fin [OF a(1)])
  have l: "0 \<le> a powr 1.96" "a powr 1.96 \<le> 1" using powr_unit [OF a] by simp_all
  show c: "0 \<le> c" "c \<le> 1" unfolding c_def using powr_unit [OF l] by simp_all
  show "fullToLimited (applyInverseHEVCGammaCompensation (Fin c))
           = Fin (max 0.0627 (min 0.9216 x))"
    unfolding applyInverseHEVCGammaCompensation_Fin [OF c(1)] fullToLimited_Fin
    unfolding c_def gamma_round_trip [OF a(1)]
    unfolding a_def legal_range_round_trip ..
qed





section \<open>Properties of the grid and of the file\<close>

lemma length_concat_map_upt:
  assumes "\<And>k. k < m \<Longrightarrow> length (f k) = n"
  shows "length (concat (map f [0..<m])) = m * n"
  using assms by (induction m) simp_all

lemma nth_concat_map_upt:
  assumes "\<And>k. k < m \<Longrightarrow> length (f k) = n" "k < m" "i < n"
  shows "concat (map f [0..<m]) ! (k * n + i) = f k ! i"
  using assms
proof (induction m)
  case 0
  then show ?case by simp
next
  case (Suc m)
  have len: "length (concat (map f [0..<m])) = m * n"
    using Suc.prems(1) by (intro length_concat_map_upt) simp
  show ?case
  proof (cases "k < m")
    case True
    have "k * n + i < k * n + n" using Suc.prems(3) by simp
    also have "\<dots> = Suc k * n" by simp
    also have "\<dots> \<le> m * n" using True by (intro mult_le_mono1) simp
    finally have lt: "k * n + i < m * n" .
    have "concat (map f [0..<m]) ! (k * n + i) = f k ! i"
      using Suc.IH [OF _ True Suc.prems(3)] Suc.prems(1) by simp
    then show ?thesis using lt len by (simp add: nth_append)
  next
    case False
    then have "k = m" using Suc.prems(2) by simp
    then show ?thesis using len by (simp add: nth_append)
  qed
qed

lemma gridCoord_Fin:
  assumes "2 \<le> N"
  shows "gridCoord N i = Fin (real i / (real N - 1))"
  using assms by (simp add: gridCoord_def jssub_def)

lemma length_gridInputs: "length (gridInputs N) = N ^ 3"
proof -
  have row: "length (map (\<lambda>r. (gridCoord N r, gridCoord N g, gridCoord N b)) [0..<N]) = N"
    for g b by simp
  have plane: "length (concat (map (\<lambda>g.
      map (\<lambda>r. (gridCoord N r, gridCoord N g, gridCoord N b)) [0..<N]) [0..<N])) = N * N" for b
    by (rule length_concat_map_upt) (rule row)
  have "length (gridInputs N) = N * (N * N)"
    unfolding gridInputs_def by (rule length_concat_map_upt) (rule plane)
  then show ?thesis by (simp add: power3_eq_cube)
qed

lemma gridInputs_nth:
  assumes "i < N" "j < N" "k < N"
  shows "gridInputs N ! (k * (N * N) + (j * N + i)) = (gridCoord N i, gridCoord N j, gridCoord N k)"
proof -
  let ?row = "\<lambda>b g. map (\<lambda>r. (gridCoord N r, gridCoord N g, gridCoord N b)) [0..<N]"
  let ?plane = "\<lambda>b. concat (map (?row b) [0..<N])"
  have row: "length (?row b g) = N" for g b by simp
  have plane: "length (?plane b) = N * N" for b
    by (rule length_concat_map_upt) (rule row)
  have jN: "j * N + i < N * N"
  proof -
    have "j * N + i < j * N + N" using assms(1) by simp
    also have "\<dots> = Suc j * N" by simp
    also have "\<dots> \<le> N * N" using assms(2) by (intro mult_le_mono1) simp
    finally show ?thesis .
  qed
  have "gridInputs N ! (k * (N * N) + (j * N + i)) = ?plane k ! (j * N + i)"
    unfolding gridInputs_def by (rule nth_concat_map_upt [OF plane assms(3) jN])
  also have "\<dots> = ?row k j ! i"
    by (rule nth_concat_map_upt [OF row assms(2) assms(1)])
  also have "\<dots> = (gridCoord N i, gridCoord N j, gridCoord N k)"
    using assms(1) by simp
  finally show ?thesis .
qed

lemma gridInputs_nth_Fin:
  assumes "2 \<le> N" "i < N" "j < N" "k < N"
  shows "gridInputs N ! (i + N * j + N * N * k) =
           (Fin (real i / (real N - 1)), Fin (real j / (real N - 1)), Fin (real k / (real N - 1)))"
proof -
  have e: "i + N * j + N * N * k = k * (N * N) + (j * N + i)" by (simp add: algebra_simps)
  show ?thesis
    unfolding e gridInputs_nth [OF assms(2-4)] gridCoord_Fin [OF assms(1)] ..
qed




subsection \<open>Rendering a value of the unit interval\<close>

declare showNat.simps [simp del]

lemma isDigit_digitChar: "d < 10 \<Longrightarrow> isDigit (digitChar d)"
proof -
  assume "d < 10"
  then have "d \<in> {0, 1, 2, 3, 4, 5, 6, 7, 8, 9}" by auto
  then show ?thesis by (auto simp: isDigit_def digitChar_def)
qed

lemma showNat_digits: "list_all isDigit (showNat n)"
proof (induction n rule: showNat.induct)
  case (1 n)
  show ?case
  proof (cases "n < 10")
    case True
    then show ?thesis by (subst showNat.simps) (simp add: isDigit_digitChar)
  next
    case False
    then show ?thesis using "1" by (subst showNat.simps) (simp add: isDigit_digitChar)
  qed
qed

lemma showNat_length: "n < 10 ^ Suc k \<Longrightarrow> length (showNat n) \<le> Suc k"
proof (induction k arbitrary: n)
  case 0
  then show ?case by (subst showNat.simps) simp
next
  case (Suc k)
  show ?case
  proof (cases "n < 10")
    case True
    then show ?thesis by (subst showNat.simps) simp
  next
    case False
    have "n div 10 < 10 ^ Suc k" using Suc.prems by (simp add: less_mult_imp_div_less)
    then have "length (showNat (n div 10)) \<le> Suc k" by (rule Suc.IH)
    then show ?thesis using False by (subst showNat.simps) simp
  qed
qed

lemma showNat_nonempty: "showNat n \<noteq> []"
  by (subst showNat.simps) simp

lemma showNat_million: "showNat 1000000 = ''1000000''"
  by (simp add: showNat.simps digitChar_def)

lemma unitFixed6_fixedDigits:
  assumes "0 \<le> v" "v \<le> 1"
  shows "unitFixed6 (fixedDigits v)"
proof -
  define n where "n = nat \<lfloor>v * 1000000 + 1 / 2\<rfloor>"
  have "\<lfloor>v * 1000000 + 1 / 2\<rfloor> \<le> (1000000::int)"
  proof -
    have "v * 1000000 + 1 / 2 < of_int (1000000 + 1)" using assms by simp
    then have "\<lfloor>v * 1000000 + 1 / 2\<rfloor> < (1000000 + 1 :: int)" by (simp only: floor_less_iff)
    then show ?thesis by simp
  qed
  then have le: "n \<le> 1000000" unfolding n_def by linarith
  show ?thesis
  proof (cases "n = 1000000")
    case True
    have "fixedDigits v = ''1.000000''"
      unfolding fixedDigits_def n_def [symmetric] True by (simp add: Let_def showNat_million)
    then show ?thesis by (simp add: unitFixed6_def isDigit_def)
  next
    case False
    then have "n < 10 ^ Suc 5" using le by simp
    then have l6: "length (showNat n) \<le> 6" using showNat_length by fastforce
    have l1: "1 \<le> length (showNat n)" using showNat_nonempty [of n] by (cases "showNat n") simp_all
    define z where "z = 6 - length (showNat n)"
    have pad: "replicate (7 - length (showNat n)) (CHR ''0'') @ showNat n
        = CHR ''0'' # replicate z (CHR ''0'') @ showNat n"
    proof -
      have "7 - length (showNat n) = Suc z" using l6 by (simp add: z_def)
      then show ?thesis by simp
    qed
    have len: "length (replicate z (CHR ''0'') @ showNat n) = 6" using l6 by (simp add: z_def)
    have "fixedDigits v = CHR ''0'' # CHR ''.'' # (replicate z (CHR ''0'') @ showNat n)"
      unfolding fixedDigits_def n_def [symmetric] Let_def using l6 len by (simp add: pad)
    moreover have "list_all isDigit (replicate z (CHR ''0'') @ showNat n)"
    proof -
      have "isDigit (CHR ''0'')" by (simp add: isDigit_def)
      then have "list_all isDigit (replicate z (CHR ''0''))" by (simp add: list_all_iff)
      then show ?thesis using showNat_digits [of n] by simp
    qed
    ultimately show ?thesis using len unfolding unitFixed6_def by blast
  qed
qed

lemma unitFixed6_toFixed6:
  assumes "0 \<le> v" "v \<le> 1"
  shows "unitFixed6 (toFixed6 (Fin v))"
  using assms unitFixed6_fixedDigits by (simp add: toFixed6_def)

lemma unitFixed6_length: "unitFixed6 s \<Longrightarrow> length s = 8"
  by (auto simp: unitFixed6_def)

lemma isDataLine_length: "isDataLine s \<Longrightarrow> length s = 26"
  by (auto simp: isDataLine_def dest!: unitFixed6_length)

subsection \<open>The text of the file\<close>

lemma transformColorHEVC_closed:
  assumes "validParams p"
  shows "\<exists>u v w. transformColorHEVC (Fin x) (Fin y) (Fin z) p = (Fin u, Fin v, Fin w) \<and>
           0 \<le> u \<and> u \<le> 1 \<and> 0 \<le> v \<and> v \<le> 1 \<and> 0 \<le> w \<and> w \<le> 1"
proof -
  obtain a b c where pre:
      "applyHEVCGammaCompensation (limitedToFull (Fin x)) = Fin a" "0 \<le> a" "a \<le> 1"
      "applyHEVCGammaCompensation (limitedToFull (Fin y)) = Fin b" "0 \<le> b" "b \<le> 1"
      "applyHEVCGammaCompensation (limitedToFull (Fin z)) = Fin c" "0 \<le> c" "c \<le> 1"
    using hevc_channel_neutral(1-3) by blast
  have ra: "inRange 0 1 (Fin a)" "inRange 0 1 (Fin b)" "inRange 0 1 (Fin c)"
    using pre by (simp_all add: inRange_Fin)
  obtain a' b' c' where mid: "transformColor (Fin a) (Fin b) (Fin c) p = (Fin a', Fin b', Fin c')"
      "0 \<le> a'" "0 \<le> b'" "0 \<le> c'"
    using transformColor_closed [OF ra assms] by blast
  show ?thesis
    unfolding transformColorHEVC_def Let_def pre(1,4,7) mid(1) prod.case
      applyInverseHEVCGammaCompensation_Fin [OF mid(2)]
      applyInverseHEVCGammaCompensation_Fin [OF mid(3)]
      applyInverseHEVCGammaCompensation_Fin [OF mid(4)] fullToLimited_Fin
    by simp
qed

lemma gridCoord_unit:
  assumes "2 \<le> N" "i < N"
  shows "\<exists>x. gridCoord N i = Fin x \<and> 0 \<le> x \<and> x \<le> 1"
proof -
  have "real i \<le> real N - 1" using assms by linarith
  moreover have "0 < real N - 1" using assms by simp
  ultimately have "0 \<le> real i / (real N - 1) \<and> real i / (real N - 1) \<le> 1" by simp
  then show ?thesis using gridCoord_Fin [OF assms(1)] by simp
qed

lemma gridInputs_unit:
  assumes "2 \<le> N" "inp \<in> set (gridInputs N)"
  shows "\<exists>x y z. inp = (Fin x, Fin y, Fin z) \<and>
           0 \<le> x \<and> x \<le> 1 \<and> 0 \<le> y \<and> y \<le> 1 \<and> 0 \<le> z \<and> z \<le> 1"
proof -
  from assms(2) obtain i j k where ijk: "i < N" "j < N" "k < N"
      "inp = (gridCoord N i, gridCoord N j, gridCoord N k)"
    by (auto simp: gridInputs_def)
  show ?thesis
    using gridCoord_unit [OF assms(1) ijk(1)] gridCoord_unit [OF assms(1) ijk(2)]
      gridCoord_unit [OF assms(1) ijk(3)] ijk(4) by auto
qed

lemma isDataLine_dataLine:
  assumes "validParams p" "0 \<le> x" "x \<le> 1" "0 \<le> y" "y \<le> 1" "0 \<le> z" "z \<le> 1"
  shows "isDataLine (dataLine f p (Fin x, Fin y, Fin z))"
proof -
  have r: "inRange 0 1 (Fin x)" "inRange 0 1 (Fin y)" "inRange 0 1 (Fin z)"
    using assms by (simp_all add: inRange_Fin)
  obtain u v w where out:
      "(if f = Hevc then transformColorHEVC (Fin x) (Fin y) (Fin z) p
        else transformColor (Fin x) (Fin y) (Fin z) p) = (Fin u, Fin v, Fin w)"
      "0 \<le> u" "u \<le> 1" "0 \<le> v" "v \<le> 1" "0 \<le> w" "w \<le> 1"
    using transformColorHEVC_closed [OF assms(1), of x y z] transformColor_closed [OF r assms(1)]
    by (cases "f = Hevc") auto
  have "dataLine f p (Fin x, Fin y, Fin z)
      = toFixed6 (Fin u) @ '' '' @ toFixed6 (Fin v) @ '' '' @ toFixed6 (Fin w)"
    unfolding dataLine_def prod.case out(1) ..
  then show ?thesis
    unfolding isDataLine_def
    using unitFixed6_toFixed6 [OF out(2,3)] unitFixed6_toFixed6 [OF out(4,5)]
      unitFixed6_toFixed6 [OF out(6,7)] by blast
qed

lemma dataLines_shape:
  assumes "2 \<le> N" "validParams p"
  shows "list_all isDataLine (dataLines p N f)"
  unfolding dataLines_def list_all_iff
proof
  fix l assume "l \<in> set (map (dataLine f p) (gridInputs N))"
  then obtain inp where inp: "inp \<in> set (gridInputs N)" "l = dataLine f p inp" by auto
  from gridInputs_unit [OF assms(1) inp(1)] obtain x y z where
    "inp = (Fin x, Fin y, Fin z)" "0 \<le> x" "x \<le> 1" "0 \<le> y" "y \<le> 1" "0 \<le> z" "z \<le> 1" by blast
  then show "isDataLine l" using isDataLine_dataLine [OF assms(2)] inp(2) by simp
qed

lemma headerLines_shape:
  "\<exists>cs. headerLines t N f =
          (''TITLE '' @ [CHR 0x22] @ t @ [CHR 0x22]) # cs @
          [''LUT_3D_SIZE '' @ showNat N, '''', ''DOMAIN_MIN 0.0 0.0 0.0'',
           ''DOMAIN_MAX 1.0 1.0 1.0'', ''''] \<and>
        list_all isCommentOrBlank cs"
proof (cases "f = Hevc")
  case True
  have "headerLines t N f =
      (''TITLE '' @ [CHR 0x22] @ t @ [CHR 0x22]) #
      ['''', ''# Generated by LUT Generator'',
       ''# HEVC-Compatible: Optimized for Apple HEVC/H.265 footage'',
       ''# Compensates for limited range (16-235) and gamma differences'',
       ''# Compatible with: Final Cut Pro, Premiere Pro, DaVinci Resolve, After Effects'',
       ''''] @
      [''LUT_3D_SIZE '' @ showNat N, '''', ''DOMAIN_MIN 0.0 0.0 0.0'',
       ''DOMAIN_MAX 1.0 1.0 1.0'', '''']"
    using True by (simp add: headerLines_def)
  moreover have "list_all isCommentOrBlank
      ['''', ''# Generated by LUT Generator'',
       ''# HEVC-Compatible: Optimized for Apple HEVC/H.265 footage'',
       ''# Compensates for limited range (16-235) and gamma differences'',
       ''# Compatible with: Final Cut Pro, Premiere Pro, DaVinci Resolve, After Effects'',
       '''']"
    by (simp add: isCommentOrBlank_def)
  ultimately show ?thesis by blast
next
  case False
  have "headerLines t N f =
      (''TITLE '' @ [CHR 0x22] @ t @ [CHR 0x22]) #
      ['''', ''# Generated by LUT Generator'',
       ''# Compatible with: Final Cut Pro, Premiere Pro, DaVinci Resolve, After Effects'',
       ''''] @
      [''LUT_3D_SIZE '' @ showNat N, '''', ''DOMAIN_MIN 0.0 0.0 0.0'',
       ''DOMAIN_MAX 1.0 1.0 1.0'', '''']"
    using False by (simp add: headerLines_def)
  moreover have "list_all isCommentOrBlank
      ['''', ''# Generated by LUT Generator'',
       ''# Compatible with: Final Cut Pro, Premiere Pro, DaVinci Resolve, After Effects'',
       '''']"
    by (simp add: isCommentOrBlank_def)
  ultimately show ?thesis by blast
qed

lemma transformColor_NaN: "transformColor NaN NaN NaN defaultParams = (NaN, NaN, NaN)"
  by (simp add: transformColor_def gradeBeforeSaturation_def defaultParams_def zeroRgb_def
      applyLiftGammaGain_def lggChannel_def gammaDenominator_def applyShadowsHighlights_def
      shChannel_def applyTemperature_def applyContrast_def contrastDenominator_def
      applySaturation_def luma_def clamp_def jssub_def jsgt_def)

lemma dataLines_size_one: "dataLines defaultParams 1 Standard = [''NaN NaN NaN'']"
  by (simp add: dataLines_def gridInputs_def gridCoord_def jssub_def dataLine_def
      transformColor_NaN toFixed6_def)

subsection \<open>The lines of the text\<close>

lemma splitLines_noLF: "CHR 0x0A \<notin> set l \<Longrightarrow> splitLines l = [l]"
proof (induction l)
  case Nil
  show ?case by simp
next
  case (Cons a l)
  from Cons.prems have "a \<noteq> CHR 0x0A" "CHR 0x0A \<notin> set l" by fastforce+
  then show ?case using Cons.IH by simp
qed

lemma splitLines_append:
  "CHR 0x0A \<notin> set l \<Longrightarrow> splitLines (l @ CHR 0x0A # rest) = l # splitLines rest"
proof (induction l)
  case Nil
  show ?case by simp
next
  case (Cons a l)
  from Cons.prems have "a \<noteq> CHR 0x0A" "CHR 0x0A \<notin> set l" by fastforce+
  then show ?case using Cons.IH by simp
qed

lemma splitLines_joinLines:
  assumes "ls \<noteq> []" "\<And>l. l \<in> set ls \<Longrightarrow> CHR 0x0A \<notin> set l"
  shows "splitLines (joinLines ls) = ls"
  using assms
proof (induction ls rule: joinLines.induct)
  case 1
  then show ?case by simp
next
  case (2 l)
  then show ?case by (simp add: splitLines_noLF)
next
  case (3 l v va)
  have "splitLines (joinLines (v # va)) = v # va" using "3.prems"(2) by (intro "3.IH") simp_all
  then show ?case using "3.prems"(2) by (simp add: splitLines_append)
qed

lemma isDigit_not_LF: "isDigit c \<Longrightarrow> c \<noteq> CHR 0x0A"
  by (auto simp: isDigit_def)

lemma digits_noLF: "list_all isDigit ds \<Longrightarrow> CHR 0x0A \<notin> set ds"
proof
  assume d: "list_all isDigit ds" and "CHR 0x0A \<in> set ds"
  then have "isDigit (CHR 0x0A)" by (simp add: list_all_iff)
  then show False using isDigit_not_LF by blast
qed

lemma unitFixed6_noLF:
  assumes "unitFixed6 s"
  shows "CHR 0x0A \<notin> set s"
proof -
  from assms obtain d ds where s: "s = d # CHR ''.'' # ds" "list_all isDigit ds"
      "d = CHR ''0'' \<or> d = CHR ''1''"
    unfolding unitFixed6_def by blast
  have "d \<noteq> CHR 0x0A" using s(3) by auto
  then show ?thesis using digits_noLF [OF s(2)] unfolding s(1) by simp
qed

lemma isDataLine_noLF:
  assumes "isDataLine s"
  shows "CHR 0x0A \<notin> set s"
proof -
  from assms obtain a b c where s: "s = a @ '' '' @ b @ '' '' @ c"
      "unitFixed6 a" "unitFixed6 b" "unitFixed6 c"
    unfolding isDataLine_def by blast
  show ?thesis
    using unitFixed6_noLF [OF s(2)] unitFixed6_noLF [OF s(3)] unitFixed6_noLF [OF s(4)]
    unfolding s(1) by simp
qed

lemma showNat_noLF: "CHR 0x0A \<notin> set (showNat n)"
  by (rule digits_noLF [OF showNat_digits])

lemma headerLines_noLF:
  assumes "CHR 0x0A \<notin> set t"
  shows "list_all (\<lambda>l. CHR 0x0A \<notin> set l) (headerLines t N f)"
  using assms showNat_noLF [of N] by (cases f) (simp_all add: headerLines_def)

lemma isDataLine_first: "isDataLine s \<Longrightarrow> s \<noteq> [] \<and> (hd s = CHR ''0'' \<or> hd s = CHR ''1'')"
  by (auto simp: isDataLine_def unitFixed6_def)

lemma headerLines_first:
  "list_all (\<lambda>l. l = [] \<or> hd l = CHR ''T'' \<or> hd l = CHR ''#'' \<or> hd l = CHR ''L'' \<or> hd l = CHR ''D'')
     (headerLines t N f)"
  by (cases f) (simp_all add: headerLines_def)

lemma headerLines_not_data: "list_all (\<lambda>l. \<not> isDataLine l) (headerLines t N f)"
  unfolding list_all_iff
proof
  fix l assume "l \<in> set (headerLines t N f)"
  then have "l = [] \<or> hd l = CHR ''T'' \<or> hd l = CHR ''#'' \<or> hd l = CHR ''L'' \<or> hd l = CHR ''D''"
    using headerLines_first [of t N f] by (simp add: list_all_iff)
  then show "\<not> isDataLine l" using isDataLine_first [of l] by auto
qed

lemma fixedDigits_noLF: "CHR 0x0A \<notin> set (fixedDigits x)"
proof -
  define n where "n = nat \<lfloor>x * 1000000 + 1 / 2\<rfloor>"
  define m where "m = (if length (showNat n) \<le> 6
      then replicate (7 - length (showNat n)) (CHR ''0'') @ showNat n else showNat n)"
  have m: "CHR 0x0A \<notin> set m" unfolding m_def using showNat_noLF [of n] by simp
  have f: "fixedDigits x = take (length m - 6) m @ ''.'' @ drop (length m - 6) m"
    unfolding fixedDigits_def Let_def m_def n_def ..
  have "CHR 0x0A \<notin> set (take (length m - 6) m)" using m in_set_takeD by fastforce
  moreover have "CHR 0x0A \<notin> set (drop (length m - 6) m)" using m in_set_dropD by fastforce
  ultimately show ?thesis unfolding f by simp
qed

lemma toFixed6_noLF: "CHR 0x0A \<notin> set (toFixed6 v)"
proof (cases v)
  case (Fin x)
  then show ?thesis using fixedDigits_noLF [of x] fixedDigits_noLF [of "- x"]
    by (simp add: toFixed6_def)
qed (simp_all add: toFixed6_def)

lemma dataLine_noLF: "CHR 0x0A \<notin> set (dataLine f p inp)"
proof -
  obtain a b c where i: "inp = (a, b, c)" by (cases inp)
  obtain u v w where o: "(if f = Hevc then transformColorHEVC a b c p
      else transformColor a b c p) = (u, v, w)" by (rule prod_cases3)
  have "dataLine f p inp = toFixed6 u @ '' '' @ toFixed6 v @ '' '' @ toFixed6 w"
    unfolding dataLine_def i prod.case o ..
  then show ?thesis using toFixed6_noLF [of u] toFixed6_noLF [of v] toFixed6_noLF [of w] by simp
qed

lemma lines_of_text:
  assumes "CHR 0x0A \<notin> set t"
  shows "splitLines (generateCubeLUT p t N f) = headerLines t N f @ dataLines p N f"
  unfolding generateCubeLUT_def
proof (rule splitLines_joinLines)
  show "headerLines t N f @ dataLines p N f \<noteq> []" by (simp add: headerLines_def)
  fix l assume "l \<in> set (headerLines t N f @ dataLines p N f)"
  then consider "l \<in> set (headerLines t N f)" | "l \<in> set (dataLines p N f)" by auto
  then show "CHR 0x0A \<notin> set l"
  proof cases
    case 1
    then show ?thesis using headerLines_noLF [OF assms, of N f] by (simp add: list_all_iff)
  next
    case 2
    then obtain inp where "l = dataLine f p inp" unfolding dataLines_def by auto
    then show ?thesis using dataLine_noLF by simp
  qed
qed

lemma count_data_lines:
  assumes "list_all (\<lambda>l. \<not> P l) hs" "list_all P ds"
  shows "length (filter P (hs @ ds)) = length ds"
proof -
  have "filter P hs = []" using assms(1) by (simp add: list_all_iff filter_empty_conv)
  moreover have "filter P ds = ds" using assms(2) by (simp add: list_all_iff)
  ultimately show ?thesis by simp
qed

lemma lggChannel_gammaOutOfRange: "lggChannel (Fin 1) (Fin 0) (Fin (- 5)) (Fin 0) = NaN"
  by (simp add: lggChannel_def gammaDenominator_def jssub_def clamp_def Let_def)

lemma transformColor_gammaOutOfRange:
  "transformColor (Fin 1) (Fin 0) (Fin 0) gammaOutOfRange = (NaN, NaN, NaN)"
proof -
  have s: "shChannel (Fin 0) (Fin 0) NaN = NaN" by (simp add: shChannel_def jsgt_def)
  have c: "applyContrast NaN (Fin 0) = NaN"
    by (simp add: applyContrast_def contrastDenominator_def jssub_def clamp_def Let_def)
  have t: "applyTemperature NaN (Fin 0) (Fin 0) (Fin 0) (Fin 0) = (NaN, Fin 0, Fin 0)"
    by (simp add: applyTemperature_def jssub_def clamp_def Let_def)
  have g: "gradeBeforeSaturation (Fin 1) (Fin 0) (Fin 0) gammaOutOfRange
      = (NaN, applyContrast (Fin 0) (Fin 0), applyContrast (Fin 0) (Fin 0))"
    by (simp add: gradeBeforeSaturation_def gammaOutOfRange_def defaultParams_def zeroRgb_def
        applyLiftGammaGain_def applyShadowsHighlights_def lggChannel_gammaOutOfRange
        lggChannel_neutral shChannel_neutral s t c)
  have l: "luma NaN y z = NaN" for y z by (rule luma_NaN(1))
  show ?thesis
    unfolding transformColor_def g
    by (simp add: applySaturation_def l gammaOutOfRange_def defaultParams_def clamp_def Let_def)
qed

lemma dataLine_gammaOutOfRange:
  "dataLines gammaOutOfRange 2 Standard ! 1 = ''NaN NaN NaN''"
proof -
  have two: "(2::nat) \<le> 2" "(1::nat) < 2" "(0::nat) < 2" by simp_all
  have "gridInputs 2 ! (1 + 2 * 0 + 2 * 2 * 0)
      = (Fin (real 1 / (real 2 - 1)), Fin (real 0 / (real 2 - 1)), Fin (real 0 / (real 2 - 1)))"
    by (rule gridInputs_nth_Fin [OF two(1) two(2) two(3) two(3)])
  then have g: "gridInputs 2 ! 1 = (Fin 1, Fin 0, Fin 0)" by simp
  have "(1::nat) < length (gridInputs 2)" by (simp add: length_gridInputs)
  then have "dataLines gammaOutOfRange 2 Standard ! 1
      = dataLine Standard gammaOutOfRange (gridInputs 2 ! 1)"
    by (simp add: dataLines_def)
  then show ?thesis
    unfolding g by (simp add: dataLine_def transformColor_gammaOutOfRange toFixed6_def)
qed

lemma isDataLine_zero: "isDataLine ''0.000000 0.000000 0.000000''"
proof -
  have u: "unitFixed6 ''0.000000''" by (simp add: unitFixed6_def isDigit_def)
  have "''0.000000 0.000000 0.000000'' = ''0.000000'' @ '' '' @ ''0.000000'' @ '' '' @ ''0.000000''"
    by simp
  then show ?thesis unfolding isDataLine_def using u by blast
qed

lemma not_isDataLine_NaN: "\<not> isDataLine ''NaN NaN NaN''"
  using isDataLine_length by fastforce

lemma headerLines_tl:
  "headerLines t N f = (''TITLE '' @ [CHR 0x22] @ t @ [CHR 0x22]) # tl (headerLines [] N f)"
  by (simp add: headerLines_def)

lemma lines_threeLineTitle:
  "splitLines (generateCubeLUT defaultParams threeLineTitle 2 Standard)
     = [''TITLE '' @ [CHR 0x22] @ ''x'', ''0.000000 0.000000 0.000000'', ''y'' @ [CHR 0x22]] @
       tl (headerLines [] 2 Standard) @ dataLines defaultParams 2 Standard"
proof -
  define body where "body = tl (headerLines [] 2 Standard) @ dataLines defaultParams 2 Standard"
  obtain rest where r: "tl (headerLines [] 2 Standard) = [] # rest"
    by (simp add: headerLines_def)
  have b: "body = [] # rest @ dataLines defaultParams 2 Standard" unfolding body_def r by simp
  have j: "generateCubeLUT defaultParams threeLineTitle 2 Standard
      = (''TITLE '' @ [CHR 0x22] @ ''x'') @ CHR 0x0A #
        (''0.000000 0.000000 0.000000'' @ CHR 0x0A #
        ((''y'' @ [CHR 0x22]) @ CHR 0x0A # joinLines body))"
    unfolding generateCubeLUT_def headerLines_tl [of threeLineTitle] append_Cons
      body_def [symmetric]
    unfolding b by (simp add: threeLineTitle_def)
  have n1: "CHR 0x0A \<notin> set (''TITLE '' @ [CHR 0x22] @ ''x'')" by simp
  have n2: "CHR 0x0A \<notin> set ''0.000000 0.000000 0.000000''" by simp
  have n3: "CHR 0x0A \<notin> set (''y'' @ [CHR 0x22])" by simp
  have "splitLines (joinLines body) = body"
  proof (rule splitLines_joinLines)
    show "body \<noteq> []" unfolding b by simp
    fix l assume "l \<in> set body"
    then consider "l \<in> set (tl (headerLines [] 2 Standard))"
      | "l \<in> set (dataLines defaultParams 2 Standard)" unfolding body_def by auto
    then show "CHR 0x0A \<notin> set l"
    proof cases
      case 1
      then have "l \<in> set (headerLines [] 2 Standard)" by (simp add: headerLines_def)
      moreover have "CHR 0x0A \<notin> set ([] :: string)" by simp
      ultimately show ?thesis using headerLines_noLF [of "[]" 2 Standard]
        by (simp add: list_all_iff)
    next
      case 2
      then obtain inp where "l = dataLine Standard defaultParams inp"
        unfolding dataLines_def by auto
      then show ?thesis using dataLine_noLF by simp
    qed
  qed
  then have "splitLines (generateCubeLUT defaultParams threeLineTitle 2 Standard)
      = (''TITLE '' @ [CHR 0x22] @ ''x'') # ''0.000000 0.000000 0.000000'' #
        (''y'' @ [CHR 0x22]) # body"
    unfolding j
    by (simp only: splitLines_append [OF n1] splitLines_append [OF n2] splitLines_append [OF n3])
  then show ?thesis unfolding body_def by simp
qed

lemma validParams_defaultParams: "validParams defaultParams"
  by (simp add: validParams_def defaultParams_def validRgb_def zeroRgb_def inRange_def)

lemma count_threeLineTitle:
  "length (filter isDataLine
     (splitLines (generateCubeLUT defaultParams threeLineTitle 2 Standard))) = 9"
proof -
  have two: "(2::nat) \<le> 2" by simp
  have h: "list_all (\<lambda>l. \<not> isDataLine l) (tl (headerLines [] 2 Standard))"
    using headerLines_not_data [of "[]" 2 Standard] by (simp add: headerLines_def)
  have d: "list_all isDataLine (dataLines defaultParams 2 Standard)"
    by (rule dataLines_shape [OF two validParams_defaultParams])
  have c: "length (filter isDataLine
      (tl (headerLines [] 2 Standard) @ dataLines defaultParams 2 Standard)) = 8"
    unfolding count_data_lines [OF h d] by (simp add: dataLines_def length_gridInputs)
  have t: "\<not> isDataLine (''TITLE '' @ [CHR 0x22] @ ''x'')"
    using isDataLine_first [of "''TITLE '' @ [CHR 0x22] @ ''x''"] by auto
  have y: "\<not> isDataLine (''y'' @ [CHR 0x22])"
    using isDataLine_first [of "''y'' @ [CHR 0x22]"] by auto
  have "filter isDataLine
      ([''TITLE '' @ [CHR 0x22] @ ''x'', ''0.000000 0.000000 0.000000'', ''y'' @ [CHR 0x22]] @
       (tl (headerLines [] 2 Standard) @ dataLines defaultParams 2 Standard))
    = ''0.000000 0.000000 0.000000'' #
      filter isDataLine (tl (headerLines [] 2 Standard) @ dataLines defaultParams 2 Standard)"
    unfolding filter_append using t y isDataLine_zero by simp
  then show ?thesis unfolding lines_threeLineTitle using c by simp
qed

text \<open>
  Claim C8 (as amended).  For every title that contains no line feed, every valid parameter
  set, every grid size \<open>N \<ge> 2\<close> and either format, the lines of the text returned by
  \<open>generateCubeLUT\<close> (the text cut at its line feeds) are: the \<open>TITLE\<close> line, then comment and
  blank lines, then \<open>LUT_3D_SIZE N\<close>, a blank line, \<open>DOMAIN_MIN 0.0 0.0 0.0\<close>,
  \<open>DOMAIN_MAX 1.0 1.0 1.0\<close> and a blank line, followed by exactly \<open>N\<^sup>3\<close> data lines, each
  holding three numerals with six decimals in \<open>[0, 1]\<close> separated by single spaces.  No other
  line of the text has the form of a data line: the text has exactly \<open>N\<^sup>3\<close> of them.
\<close>

theorem C8_cube_text:
  assumes "2 \<le> N" "validParams p" "CHR 0x0A \<notin> set t"
  shows "(\<exists>cs ds. splitLines (generateCubeLUT p t N f) =
            (''TITLE '' @ [CHR 0x22] @ t @ [CHR 0x22]) # cs @
            [''LUT_3D_SIZE '' @ showNat N, '''', ''DOMAIN_MIN 0.0 0.0 0.0'',
             ''DOMAIN_MAX 1.0 1.0 1.0'', ''''] @ ds \<and>
          list_all isCommentOrBlank cs \<and> ds = dataLines p N f \<and>
          length ds = N ^ 3 \<and> list_all isDataLine ds) \<and>
    length (filter isDataLine (splitLines (generateCubeLUT p t N f))) = N ^ 3"
proof -
  have len: "length (dataLines p N f) = N ^ 3" by (simp add: dataLines_def length_gridInputs)
  have shape: "list_all isDataLine (dataLines p N f)" by (rule dataLines_shape [OF assms(1,2)])
  have split: "splitLines (generateCubeLUT p t N f) = headerLines t N f @ dataLines p N f"
    by (rule lines_of_text [OF assms(3)])
  obtain cs where cs: "headerLines t N f =
      (''TITLE '' @ [CHR 0x22] @ t @ [CHR 0x22]) # cs @
      [''LUT_3D_SIZE '' @ showNat N, '''', ''DOMAIN_MIN 0.0 0.0 0.0'',
       ''DOMAIN_MAX 1.0 1.0 1.0'', '''']" "list_all isCommentOrBlank cs"
    using headerLines_shape [of t N f] by blast
  have "splitLines (generateCubeLUT p t N f) =
      (''TITLE '' @ [CHR 0x22] @ t @ [CHR 0x22]) # cs @
      [''LUT_3D_SIZE '' @ showNat N, '''', ''DOMAIN_MIN 0.0 0.0 0.0'',
       ''DOMAIN_MAX 1.0 1.0 1.0'', ''''] @ dataLines p N f"
    unfolding split cs(1) by simp
  then have first: "\<exists>cs ds. splitLines (generateCubeLUT p t N f) =
        (''TITLE '' @ [CHR 0x22] @ t @ [CHR 0x22]) # cs @
        [''LUT_3D_SIZE '' @ showNat N, '''', ''DOMAIN_MIN 0.0 0.0 0.0'',
         ''DOMAIN_MAX 1.0 1.0 1.0'', ''''] @ ds \<and>
      list_all isCommentOrBlank cs \<and> ds = dataLines p N f \<and>
      length ds = N ^ 3 \<and> list_all isDataLine ds"
    using cs(2) len shape by blast
  have second: "length (filter isDataLine (splitLines (generateCubeLUT p t N f))) = N ^ 3"
    unfolding split count_data_lines [OF headerLines_not_data shape] by (rule len)
  show ?thesis using first second by (rule conjI)
qed

theorem C8_cube_text_witness:
  "(2::nat) \<le> 2 \<and> validParams defaultParams \<and> CHR 0x0A \<notin> set ''Generated LUT'' \<and>
   (\<exists>cs ds. splitLines (generateCubeLUT defaultParams ''Generated LUT'' 2 Hevc) =
            (''TITLE '' @ [CHR 0x22] @ ''Generated LUT'' @ [CHR 0x22]) # cs @
            [''LUT_3D_SIZE '' @ showNat 2, '''', ''DOMAIN_MIN 0.0 0.0 0.0'',
             ''DOMAIN_MAX 1.0 1.0 1.0'', ''''] @ ds \<and>
          list_all isCommentOrBlank cs \<and> ds = dataLines defaultParams 2 Hevc \<and>
          length ds = 2 ^ 3 \<and> list_all isDataLine ds) \<and>
   length (filter isDataLine
     (splitLines (generateCubeLUT defaultParams ''Generated LUT'' 2 Hevc))) = 8"
proof -
  have h: "(2::nat) \<le> 2" by simp
  have v: "validParams defaultParams" by (rule validParams_defaultParams)
  have n: "CHR 0x0A \<notin> set ''Generated LUT''" by simp
  note t = C8_cube_text [OF h v n, of Hevc]
  have t2: "length (filter isDataLine
      (splitLines (generateCubeLUT defaultParams ''Generated LUT'' 2 Hevc))) = 8"
    using conjunct2 [OF t] by simp
  show ?thesis
    by (rule conjI [OF h conjI [OF v conjI [OF n conjI [OF conjunct1 [OF t] t2]]]])
qed

text \<open>
  Each restriction of the amended claim is needed.  At grid size 1 the single grid coordinate
  is \<open>0 / 0\<close>, and the one line after the header reads \<open>NaN NaN NaN\<close>.  With the red channel
  of \<open>gamma\<close> at \<open>-5\<close> the exponent of the gamma stage is \<open>1 / 0\<close>, and the second data line
  of a grid of size 2 (input \<open>(1, 0, 0)\<close>) reads \<open>NaN NaN NaN\<close>.  With a title of three lines
  whose middle line is \<open>0.000000 0.000000 0.000000\<close>, the second line of the text has the form
  of a data line and stands before \<open>LUT_3D_SIZE\<close>; the text for a grid of size 2 then has nine
  lines of that form, not eight.
\<close>

theorem C8_cube_text_counterexample:
  "(splitLines (generateCubeLUT defaultParams ''Generated LUT'' 1 Standard) =
      headerLines ''Generated LUT'' 1 Standard @ [''NaN NaN NaN''] \<and>
    \<not> isDataLine ''NaN NaN NaN'') \<and>
   (splitLines (generateCubeLUT gammaOutOfRange ''Generated LUT'' 2 Standard) =
      headerLines ''Generated LUT'' 2 Standard @ dataLines gammaOutOfRange 2 Standard \<and>
    dataLines gammaOutOfRange 2 Standard ! 1 = ''NaN NaN NaN'') \<and>
   (splitLines (generateCubeLUT defaultParams threeLineTitle 2 Standard) =
      [''TITLE '' @ [CHR 0x22] @ ''x'', ''0.000000 0.000000 0.000000'', ''y'' @ [CHR 0x22]] @
      tl (headerLines [] 2 Standard) @ dataLines defaultParams 2 Standard \<and>
    isDataLine ''0.000000 0.000000 0.000000'' \<and>
    length (filter isDataLine
      (splitLines (generateCubeLUT defaultParams threeLineTitle 2 Standard))) = 9)"
proof -
  have n: "CHR 0x0A \<notin> set ''Generated LUT''" by simp
  have one: "splitLines (generateCubeLUT defaultParams ''Generated LUT'' 1 Standard) =
      headerLines ''Generated LUT'' 1 Standard @ [''NaN NaN NaN'']"
    unfolding lines_of_text [OF n] dataLines_size_one ..
  have gam: "splitLines (generateCubeLUT gammaOutOfRange ''Generated LUT'' 2 Standard) =
      headerLines ''Generated LUT'' 2 Standard @ dataLines gammaOutOfRange 2 Standard"
    by (rule lines_of_text [OF n])
  show ?thesis
    by (intro conjI one not_isDataLine_NaN gam dataLine_gammaOutOfRange lines_threeLineTitle
        isDataLine_zero count_threeLineTitle)
qed

section \<open>Properties of the extraction\<close>

lemma match_contrast_example:
  "findFirst (matchScalarAt (jsstr ''contrast'') False) (jsstr ''contrast: 30, saturation: -20'')
     = Some (jsstr ''30'')"
  by (simp add: jsstr_def matchScalarAt_def captureNumber_def ciEq_def isColonOrSpace_def
      isSpace_def isSign_def isDigitOrDot_def isDecDigit_def)

lemmas class_defs = ciEq_def isColonOrSpace_def isCommaOrSpace_def isSpace_def isSign_def
  isDigitOrDot_def isDecDigit_def

lemmas matcher_defs = jsstr_def matchScalarAt_def matchRgbAt_def captureNumber_def
  skipOptional_def class_defs

lemmas number_defs = parseFloat_def digitsToNat_def normalizeScalar_def normalizeChannel_def
  percentDivisor_def isNaN_def jsgt_def clamp_def isSign_def isDecDigit_def

lemma parse_example_scalars:
  "fold (scalarStep (jsstr ''contrast: 30, saturation: -20'')) patterns Map.empty
     = [''contrast'' \<mapsto> Num (Fin 0.3), ''saturation'' \<mapsto> Num (Fin 0)]"
  by (simp add: patterns_def scalarStep_def matcher_defs number_defs)

lemma parse_example_triples:
  "fold (rgbStep (jsstr ''contrast: 30, saturation: -20'')) rgbPatterns m = m"
  by (simp add: rgbPatterns_def rgbStep_def matcher_defs)

text \<open>
  Claim C4.  On the text \<open>contrast: 30, saturation: -20\<close> the result of \<open>parseAIResponse\<close>
  has exactly the fields \<open>contrast\<close> and \<open>saturation\<close>; \<open>contrast\<close> is \<open>0.3\<close>, and
  \<open>saturation\<close> is \<open>0\<close>: the quotient \<open>-20 / 100\<close> is clamped to \<open>[0, 1]\<close> before the sign is
  applied, so the sign is lost.
\<close>

theorem C4_parse_example:
  "parseAIResponse (jsstr ''contrast: 30, saturation: -20'')
     = [''contrast'' \<mapsto> Num (Fin 0.3), ''saturation'' \<mapsto> Num (Fin 0)]"
  unfolding parseAIResponse_def parse_example_scalars parse_example_triples ..

subsection \<open>The range of the extracted values\<close>

lemma percentDivisor_cases: "percentDivisor v = Fin 100 \<or> percentDivisor v = Fin 1"
  by (simp add: percentDivisor_def)

lemma normalizeScalar_range:
  assumes "v \<noteq> NaN"
  shows "inRange 0 1 (normalizeScalar v)"
proof (cases v)
  case (Fin a)
  show ?thesis
    using percentDivisor_cases [of v] unfolding Fin normalizeScalar_def
    by (auto simp: clamp_Fin inRange_Fin divide_less_0_iff max_def min_def)
next
  case PInf
  then show ?thesis
    by (simp add: normalizeScalar_def percentDivisor_def jsgt_def clamp_def inRange_Fin)
next
  case NInf
  then show ?thesis
    by (simp add: normalizeScalar_def percentDivisor_def jsgt_def clamp_def inRange_Fin)
next
  case NaN
  then show ?thesis using assms by simp
qed

lemma normalizeScalar_negative:
  assumes "jslt v (Fin 0)"
  shows "normalizeScalar v = Fin 0"
proof (cases v)
  case (Fin a)
  then have "a < 0" using assms by simp
  then show ?thesis
    using percentDivisor_cases [of v] unfolding Fin normalizeScalar_def
    by (auto simp: clamp_Fin divide_less_0_iff max_def min_def)
next
  case PInf
  then show ?thesis using assms by simp
next
  case NInf
  then show ?thesis
    by (simp add: normalizeScalar_def percentDivisor_def jsgt_def clamp_def)
next
  case NaN
  then show ?thesis using assms by simp
qed

lemma normalizeChannel_range:
  assumes "v \<noteq> NaN"
  shows "inRange (- 1) 1 (normalizeChannel v)"
proof (cases v)
  case (Fin a)
  show ?thesis
    using percentDivisor_cases [of v] unfolding Fin normalizeChannel_def
    by (auto simp: inRange_Fin)
next
  case PInf
  then show ?thesis
    by (simp add: normalizeChannel_def percentDivisor_def jsgt_def inRange_Fin)
next
  case NInf
  then show ?thesis
    by (simp add: normalizeChannel_def percentDivisor_def jsgt_def inRange_Fin)
next
  case NaN
  then show ?thesis using assms by simp
qed

lemma normalizeChannel_identity:
  assumes "- 1 \<le> x" "x \<le> 1"
  shows "normalizeChannel (Fin x) = Fin x"
proof -
  have "\<not> 1 < \<bar>x\<bar>" using assms by simp
  then show ?thesis using assms by (simp add: normalizeChannel_def percentDivisor_def jsgt_def)
qed

lemma scalarStep_ok:
  assumes "pat \<in> set patterns" "entriesOk m"
  shows "entriesOk (scalarStep response pat m)"
proof -
  obtain key word optS where pat: "pat = (key, word, optS)" by (cases pat) auto
  have key: "key \<in> fst ` set patterns" using assms(1) pat by force
  show ?thesis
  proof (cases "findFirst (matchScalarAt (jsstr word) optS) response")
    case None
    then show ?thesis using assms(2) by (simp add: scalarStep_def pat)
  next
    case (Some cap)
    show ?thesis
    proof (cases "parseFloat cap = NaN")
      case True
      then show ?thesis using assms(2) Some by (simp add: scalarStep_def pat isNaN_def)
    next
      case False
      have "entryOk key (Num (normalizeScalar (parseFloat cap)))"
        using key normalizeScalar_range [OF False] by (simp add: entryOk_def)
      then show ?thesis
        using assms(2) Some False by (simp add: scalarStep_def pat isNaN_def entriesOk_def)
    qed
  qed
qed

lemma rgbStep_ok:
  assumes "pat \<in> set rgbPatterns" "entriesOk m"
  shows "entriesOk (rgbStep response pat m)"
proof -
  obtain key word where pat: "pat = (key, word)" by (cases pat) auto
  have key: "key \<in> fst ` set rgbPatterns" using assms(1) pat by force
  show ?thesis
  proof (cases "findFirst (matchRgbAt (jsstr word)) response")
    case None
    then show ?thesis using assms(2) by (simp add: rgbStep_def pat)
  next
    case (Some caps)
    obtain c1 c2 c3 where caps: "caps = (c1, c2, c3)" by (cases caps) auto
    show ?thesis
    proof (cases "parseFloat c1 \<noteq> NaN \<and> parseFloat c2 \<noteq> NaN \<and> parseFloat c3 \<noteq> NaN")
      case True
      have "entryOk key (Rgb \<lparr>chan_r = normalizeChannel (parseFloat c1),
          chan_g = normalizeChannel (parseFloat c2), chan_b = normalizeChannel (parseFloat c3)\<rparr>)"
        using key True normalizeChannel_range by (simp add: entryOk_def validRgb_def)
      then show ?thesis
        using assms(2) Some True
        by (simp add: rgbStep_def pat caps isNaN_def entriesOk_def Let_def)
    next
      case False
      then show ?thesis
        using assms(2) Some by (auto simp: rgbStep_def pat caps isNaN_def Let_def)
    qed
  qed
qed

lemma fold_entriesOk:
  assumes "\<And>pat m. pat \<in> set ps \<Longrightarrow> entriesOk m \<Longrightarrow> entriesOk (step pat m)" "entriesOk m"
  shows "entriesOk (fold step ps m)"
  using assms by (induction ps arbitrary: m) simp_all

lemma parseAIResponse_ok: "entriesOk (parseAIResponse response)"
  unfolding parseAIResponse_def
proof (rule fold_entriesOk)
  have e: "entriesOk Map.empty" by (simp add: entriesOk_def)
  show "entriesOk (fold (scalarStep response) patterns Map.empty)"
    by (rule fold_entriesOk [OF _ e]) (rule scalarStep_ok)
qed (rule rgbStep_ok)

lemma parse_negative_scalar:
  "parseAIResponse (jsstr ''saturation: -20'') = [''saturation'' \<mapsto> Num (Fin 0)]"
  by (simp add: parseAIResponse_def patterns_def rgbPatterns_def scalarStep_def rgbStep_def
      matcher_defs number_defs)

lemma parse_negative_channels:
  "parseAIResponse (jsstr ''lift: -0.5, 0.2, -30'')
     = [''lift'' \<mapsto> Rgb \<lparr>chan_r = Fin (- 0.5), chan_g = Fin 0.2, chan_b = Fin (- 0.3)\<rparr>]"
  by (simp add: parseAIResponse_def patterns_def rgbPatterns_def scalarStep_def rgbStep_def
      matcher_defs number_defs)

lemma scalar_keys_not_triple_keys: "key \<in> fst ` set patterns \<Longrightarrow> key \<notin> fst ` set rgbPatterns"
  by (auto simp: patterns_def rgbPatterns_def)

text \<open>
  Claim C9.  For every input string, a field of the result that holds a number is one of
  the six scalar fields and its value is a finite number in \<open>[0, 1]\<close>, so every scalar
  field present is at least 0; a scalar field never holds anything else.  When the matched
  number is negative, the value stored is 0.  A field that holds a triple is one of
  \<open>lift\<close>, \<open>gamma\<close>, \<open>gain\<close> and each of its channels is a finite number in \<open>[-1, 1]\<close>;
  every value of \<open>[-1, 1]\<close> passes through the channel normalisation unchanged, negative
  ones included, as the two examples show.
\<close>

theorem C9_scalar_fields_nonnegative:
  "(\<forall>response key v. parseAIResponse response key = Some (Num v) \<longrightarrow>
      key \<in> fst ` set patterns \<and> (\<exists>x. v = Fin x \<and> 0 \<le> x \<and> x \<le> 1)) \<and>
   (\<forall>response key val. key \<in> fst ` set patterns \<and> parseAIResponse response key = Some val \<longrightarrow>
      (\<exists>x. val = Num (Fin x) \<and> 0 \<le> x)) \<and>
   (\<forall>response key word optS m cap.
      findFirst (matchScalarAt (jsstr word) optS) response = Some cap \<and>
      jslt (parseFloat cap) (Fin 0) \<longrightarrow>
      scalarStep response (key, word, optS) m key = Some (Num (Fin 0))) \<and>
   (\<forall>response key c. parseAIResponse response key = Some (Rgb c) \<longrightarrow>
      key \<in> fst ` set rgbPatterns \<and> validRgb c) \<and>
   (\<forall>x. - 1 \<le> x \<and> x \<le> 1 \<longrightarrow> normalizeChannel (Fin x) = Fin x) \<and>
   parseAIResponse (jsstr ''saturation: -20'') = [''saturation'' \<mapsto> Num (Fin 0)] \<and>
   parseAIResponse (jsstr ''lift: -0.5, 0.2, -30'')
     = [''lift'' \<mapsto> Rgb \<lparr>chan_r = Fin (- 0.5), chan_g = Fin 0.2, chan_b = Fin (- 0.3)\<rparr>]"
proof -
  have ok: "entryOk key val" if "parseAIResponse response key = Some val" for response key val
    using parseAIResponse_ok [of response] that by (simp add: entriesOk_def)
  have num: "key \<in> fst ` set patterns \<and> (\<exists>x. v = Fin x \<and> 0 \<le> x \<and> x \<le> 1)"
    if "parseAIResponse response key = Some (Num v)" for response key v
    using ok [OF that] inRangeE [of 0 1 v] by (simp add: entryOk_def)
  have tri: "key \<in> fst ` set rgbPatterns \<and> validRgb c"
    if "parseAIResponse response key = Some (Rgb c)" for response key c
    using ok [OF that] by (simp add: entryOk_def)
  have scal: "\<exists>x. val = Num (Fin x) \<and> 0 \<le> x"
    if "key \<in> fst ` set patterns \<and> parseAIResponse response key = Some val" for response key val
  proof (cases val)
    case (Num v)
    then show ?thesis using num [of response key v] that by auto
  next
    case (Rgb c)
    then show ?thesis using tri [of response key c] that scalar_keys_not_triple_keys by auto
  qed
  have neg: "scalarStep response (key, word, optS) m key = Some (Num (Fin 0))"
    if "findFirst (matchScalarAt (jsstr word) optS) response = Some cap \<and>
        jslt (parseFloat cap) (Fin 0)" for response key word optS m cap
  proof -
    have "parseFloat cap \<noteq> NaN" using that by auto
    then show ?thesis
      using that normalizeScalar_negative [of "parseFloat cap"]
      by (simp add: scalarStep_def isNaN_def)
  qed
  have chan: "normalizeChannel (Fin x) = Fin x" if "- 1 \<le> x \<and> x \<le> 1" for x
    using that normalizeChannel_identity by simp
  show ?thesis
    by (intro conjI allI impI)
      (fact num [THEN conjunct1] num [THEN conjunct2] scal neg tri [THEN conjunct1]
        tri [THEN conjunct2] chan parse_negative_scalar parse_negative_channels)+
qed

theorem C9_scalar_fields_nonnegative_witness:
  "parseAIResponse (jsstr ''contrast: 30, saturation: -20'') ''saturation'' = Some (Num (Fin 0)) \<and>
   ''saturation'' \<in> fst ` set patterns \<and>
   (\<exists>x. Fin 0 = Fin x \<and> 0 \<le> x \<and> x \<le> 1)"
proof -
  have h: "parseAIResponse (jsstr ''contrast: 30, saturation: -20'') ''saturation''
      = Some (Num (Fin 0))"
    unfolding parseAIResponse_def parse_example_scalars parse_example_triples by simp
  note t = conjunct1 [OF C9_scalar_fields_nonnegative, rule_format, OF h]
  show ?thesis using h t by (intro conjI) auto
qed

section \<open>Properties of the analysis and of the mapping to parameters\<close>

lemma averageColor_black:
  "averageColor (analyzeImageData blackPixel) = \<lparr>chan_r = Fin 0, chan_g = Fin 0, chan_b = Fin 0\<rparr>"
  by (simp add: analyzeImageData_def blackPixel_def Let_def pixelStep_def unitOfByte_def
      initialAccumulators_def)

lemma gain_zero_average:
  assumes "averageColor a = \<lparr>chan_r = Fin 0, chan_g = Fin 0, chan_b = Fin 0\<rparr>"
  shows "gain (analysisToLUTParams a) = \<lparr>chan_r = NaN, chan_g = NaN, chan_b = NaN\<rparr>"
  using assms by (simp add: analysisToLUTParams_def Let_def clampSigned_def jssub_def)

text \<open>
  Claim C5.  The code on a black image: the analysis of a single black pixel has the
  average colour \<open>(0, 0, 0)\<close>; the largest channel, by which the gain stage divides, is
  then \<open>0\<close>, each quotient \<open>0 / 0\<close> is \<open>NaN\<close>, and \<open>Math.max(-1, Math.min(1, NaN))\<close> is \<open>NaN\<close>:
  the three gain channels of the result are \<open>NaN\<close>.
\<close>

theorem C5_black_image_gain:
  "averageColor (analyzeImageData blackPixel) = \<lparr>chan_r = Fin 0, chan_g = Fin 0, chan_b = Fin 0\<rparr> \<and>
   jsmax (jsmax (Fin 0) (Fin 0)) (Fin 0) = Fin 0 \<and>
   jsdiv (Fin 0) (Fin 0) = NaN \<and>
   gain (analysisToLUTParams (analyzeImageData blackPixel))
     = \<lparr>chan_r = NaN, chan_g = NaN, chan_b = NaN\<rparr> \<and>
   \<not> validParams (analysisToLUTParams (analyzeImageData blackPixel))"
proof -
  have g: "gain (analysisToLUTParams (analyzeImageData blackPixel))
     = \<lparr>chan_r = NaN, chan_g = NaN, chan_b = NaN\<rparr>"
    by (rule gain_zero_average [OF averageColor_black])
  then have "\<not> validParams (analysisToLUTParams (analyzeImageData blackPixel))"
    by (simp add: validParams_def validRgb_def inRange_def)
  then show ?thesis using g averageColor_black by simp
qed

subsection \<open>The histograms\<close>

lemma length_bump: "length (bump h i) = length h"
  by (simp add: bump_def)

lemma nth_bump: "j < length h \<Longrightarrow> bump h i ! j = h ! j + (if i = j then 1 else 0)"
  by (simp add: bump_def nth_list_update)

text \<open>After the loop each bin holds what it held before plus the number of pixels that fall
  into it.\<close>

lemma countR_fold:
  "length (countR (fold pixelStep ps acc)) = length (countR acc) \<and>
   (j < length (countR acc) \<longrightarrow>
      countR (fold pixelStep ps acc) ! j =
        countR acc ! j + length (filter (\<lambda>(cr, cg, cb). unat cr = j) ps))"
proof (induction ps arbitrary: acc)
  case Nil
  show ?case by simp
next
  case (Cons p ps)
  obtain cr cg cb where p: "p = (cr, cg, cb)" by (cases p) auto
  have l: "length (countR (pixelStep p acc)) = length (countR acc)"
    by (simp add: p pixelStep_def Let_def length_bump)
  have n: "countR (pixelStep p acc) ! j = countR acc ! j + (if unat cr = j then 1 else 0)"
    if "j < length (countR acc)"
    using that by (simp add: p pixelStep_def Let_def nth_bump)
  show ?case using Cons.IH [of "pixelStep p acc"] l n by (auto simp: p)
qed

lemma countG_fold:
  "length (countG (fold pixelStep ps acc)) = length (countG acc) \<and>
   (j < length (countG acc) \<longrightarrow>
      countG (fold pixelStep ps acc) ! j =
        countG acc ! j + length (filter (\<lambda>(cr, cg, cb). unat cg = j) ps))"
proof (induction ps arbitrary: acc)
  case Nil
  show ?case by simp
next
  case (Cons p ps)
  obtain cr cg cb where p: "p = (cr, cg, cb)" by (cases p) auto
  have l: "length (countG (pixelStep p acc)) = length (countG acc)"
    by (simp add: p pixelStep_def Let_def length_bump)
  have n: "countG (pixelStep p acc) ! j = countG acc ! j + (if unat cg = j then 1 else 0)"
    if "j < length (countG acc)"
    using that by (simp add: p pixelStep_def Let_def nth_bump)
  show ?case using Cons.IH [of "pixelStep p acc"] l n by (auto simp: p)
qed

lemma countB_length: "length (countB (fold pixelStep ps acc)) = length (countB acc)"
proof (induction ps arbitrary: acc)
  case Nil
  show ?case by simp
next
  case (Cons p ps)
  obtain cr cg cb where p: "p = (cr, cg, cb)" by (cases p) auto
  have "length (countB (pixelStep p acc)) = length (countB acc)"
    by (simp add: p pixelStep_def Let_def length_bump)
  then show ?case using Cons.IH [of "pixelStep p acc"] by simp
qed

lemma countLuminance_length:
  "length (countLuminance (fold pixelStep ps acc)) = length (countLuminance acc)"
proof (induction ps arbitrary: acc)
  case Nil
  show ?case by simp
next
  case (Cons p ps)
  obtain cr cg cb where p: "p = (cr, cg, cb)" by (cases p) auto
  have "length (countLuminance (pixelStep p acc)) = length (countLuminance acc)"
    by (simp add: p pixelStep_def Let_def length_bump)
  then show ?case using Cons.IH [of "pixelStep p acc"] by simp
qed

lemma unat_byte_less: "unat (w :: 8 word) < 256"
  using unsigned_less [of w, where ?'a = nat] by simp

lemma pixelsOf_nonempty: "4 \<le> length d \<Longrightarrow> pixelsOf d \<noteq> []"
proof -
  assume "4 \<le> length d"
  then obtain a b c e rest where "d = a # b # c # e # rest"
    by (cases d; cases "tl d"; cases "tl (tl d)"; cases "tl (tl (tl d))") auto
  then show ?thesis by simp
qed

lemma wellFormed_length: "wellFormed img \<Longrightarrow> 4 \<le> length (data img)"
proof -
  assume w: "wellFormed img"
  then have "1 \<le> width img * height img" by (simp add: wellFormed_def Suc_leI)
  then have "4 * 1 \<le> 4 * (width img * height img)" by (rule mult_le_mono2)
  then show ?thesis using w by (simp add: wellFormed_def mult.assoc)
qed

subsection \<open>The modelled operations stay inside their domains\<close>

lemma unitOfByte_unit: "0 \<le> unitOfByte w" "unitOfByte w \<le> 1"
proof -
  have n: "0 \<le> real (unat w)" by (rule of_nat_0_le_iff)
  show "0 \<le> unitOfByte w"
    unfolding unitOfByte_def by (rule divide_nonneg_nonneg [OF n]) simp
  have "unat w \<le> 255" using unat_byte_less [of w] by simp
  then have "real (unat w) \<le> real 255" by (rule of_nat_mono)
  then have "real (unat w) / 255 \<le> real 255 / 255" by (rule divide_right_mono) simp
  then show "unitOfByte w \<le> 1" unfolding unitOfByte_def by simp
qed

text \<open>The index of the luminance bin is inside the array of 256 bins.\<close>

lemma luminance_bin_in_range:
  "nat \<lfloor>getLuminance (unitOfByte cr) (unitOfByte cg) (unitOfByte cb) * 255\<rfloor> < 256"
proof -
  define l where "l = getLuminance (unitOfByte cr) (unitOfByte cg) (unitOfByte cb)"
  have "l \<le> 0.299 * 1 + 0.587 * 1 + 0.114 * 1"
    unfolding l_def getLuminance_def
    using unitOfByte_unit(2) [of cr] unitOfByte_unit(2) [of cg] unitOfByte_unit(2) [of cb]
    by (intro add_mono mult_left_mono) simp_all
  then have "l * 255 < 256" by simp
  then have "\<lfloor>l * 255\<rfloor> < 256" by (simp add: floor_less_iff)
  then show ?thesis unfolding l_def by linarith
qed

text \<open>The divisions of \<open>rgbToHsl\<close> never divide by zero on channels of the unit interval.\<close>

lemma rgbToHsl_denominators:
  fixes r g b :: real
  assumes "0 \<le> r" "r \<le> 1" "0 \<le> g" "g \<le> 1" "0 \<le> b" "b \<le> 1"
    and "max (max r g) b \<noteq> min (min r g) b"
  shows "0 < max (max r g) b - min (min r g) b"
    and "0.5 < (max (max r g) b + min (min r g) b) / 2 \<Longrightarrow> 0 < 2 - max (max r g) b - min (min r g) b"
    and "\<not> 0.5 < (max (max r g) b + min (min r g) b) / 2 \<Longrightarrow> 0 < max (max r g) b + min (min r g) b"
proof -
  show "0 < max (max r g) b - min (min r g) b" using assms(7) by (auto simp: max_def min_def)
  show "0 < 2 - max (max r g) b - min (min r g) b"
    using assms by (auto simp: max_def min_def split: if_splits)
  show "0 < max (max r g) b + min (min r g) b"
    using assms by (auto simp: max_def min_def split: if_splits)
qed

lemma histogram_analyzeImageData:
  "histogram (analyzeImageData img) =
     \<lparr>hist_r = normalizeHistogram (maxHistValue (rawCounts img)) (countR (rawCounts img)),
      hist_g = normalizeHistogram (maxHistValue (rawCounts img)) (countG (rawCounts img)),
      hist_b = normalizeHistogram (maxHistValue (rawCounts img)) (countB (rawCounts img)),
      hist_luminance =
        normalizeHistogram (maxHistValue (rawCounts img)) (countLuminance (rawCounts img))\<rparr>"
  by (simp add: analyzeImageData_def rawCounts_def Let_def)

lemma rawCounts_lengths:
  "length (countR (rawCounts img)) = 256" "length (countG (rawCounts img)) = 256"
  "length (countB (rawCounts img)) = 256" "length (countLuminance (rawCounts img)) = 256"
  using countR_fold [of "pixelsOf (data img)" initialAccumulators 0]
    countG_fold [of "pixelsOf (data img)" initialAccumulators 0]
    countB_length [of "pixelsOf (data img)" initialAccumulators]
    countLuminance_length [of "pixelsOf (data img)" initialAccumulators]
  by (simp_all add: rawCounts_def initialAccumulators_def)

lemma countR_rawCounts:
  assumes "j < 256"
  shows "countR (rawCounts img) ! j =
           length (filter (\<lambda>(cr, cg, cb). unat cr = j) (pixelsOf (data img)))"
  using countR_fold [of "pixelsOf (data img)" initialAccumulators j] assms
  by (simp add: rawCounts_def initialAccumulators_def)

lemma countG_rawCounts:
  assumes "j < 256"
  shows "countG (rawCounts img) ! j =
           length (filter (\<lambda>(cr, cg, cb). unat cg = j) (pixelsOf (data img)))"
  using countG_fold [of "pixelsOf (data img)" initialAccumulators j] assms
  by (simp add: rawCounts_def initialAccumulators_def)

lemma maxHistValue_ge:
  assumes "c \<in> set (countR acc @ countG acc @ countB acc @ countLuminance acc)"
  shows "c \<le> maxHistValue acc"
  unfolding maxHistValue_def using assms by (intro Max_ge) simp_all

lemma maxHistValue_in:
  assumes "countR acc \<noteq> []"
  shows "maxHistValue acc \<in> set (countR acc @ countG acc @ countB acc @ countLuminance acc)"
  unfolding maxHistValue_def using assms by (intro Max_in) simp_all

lemma maxHistValue_pos:
  assumes "4 \<le> length (data img)"
  shows "0 < maxHistValue (rawCounts img)"
proof -
  from pixelsOf_nonempty [OF assms] obtain cr cg cb ps
    where ps: "pixelsOf (data img) = (cr, cg, cb) # ps"
    by (cases "pixelsOf (data img)") auto
  have j: "unat cr < 256" by (rule unat_byte_less)
  have "1 \<le> countR (rawCounts img) ! unat cr"
    unfolding countR_rawCounts [OF j] ps by simp
  moreover have "countR (rawCounts img) ! unat cr \<in> set (countR (rawCounts img))"
    using j rawCounts_lengths(1) [of img] by (intro nth_mem) simp
  ultimately show ?thesis
    using maxHistValue_ge [of "countR (rawCounts img) ! unat cr" "rawCounts img"] by simp
qed

lemma allBins_analyzeImageData:
  assumes "0 < maxHistValue (rawCounts img)"
  shows "allBins (histogram (analyzeImageData img)) =
           map (\<lambda>v. real v / real (maxHistValue (rawCounts img)))
             (countR (rawCounts img) @ countG (rawCounts img) @ countB (rawCounts img) @
              countLuminance (rawCounts img))"
  using assms by (simp add: allBins_def histogram_analyzeImageData normalizeHistogram_def)

lemma wellFormed_twoPixels: "wellFormed twoPixels"
  by (simp add: wellFormed_def twoPixels_def)

lemma twoPixels_red_bins:
  assumes "v \<in> set (hist_r (histogram (analyzeImageData twoPixels)))"
  shows "v \<le> 1 / 2"
proof -
  have len: "4 \<le> length (data twoPixels)" by (simp add: twoPixels_def)
  have px: "pixelsOf (data twoPixels) = [(0, 0, 0), (255, 0, 0)]" by (simp add: twoPixels_def)
  define m where "m = maxHistValue (rawCounts twoPixels)"
  have "countG (rawCounts twoPixels) ! 0 = 2"
    using countG_rawCounts [of 0 twoPixels] by (simp add: px)
  moreover have "countG (rawCounts twoPixels) ! 0 \<in> set (countG (rawCounts twoPixels))"
    using rawCounts_lengths(2) [of twoPixels] by (intro nth_mem) simp
  ultimately have m2: "2 \<le> m"
    unfolding m_def using maxHistValue_ge [of 2 "rawCounts twoPixels"] by simp
  have hr: "hist_r (histogram (analyzeImageData twoPixels))
      = map (\<lambda>c. real c / real m) (countR (rawCounts twoPixels))"
    using m2 by (simp add: histogram_analyzeImageData normalizeHistogram_def m_def)
  from assms obtain j where j: "j < 256" "v = real (countR (rawCounts twoPixels) ! j) / real m"
    unfolding hr using rawCounts_lengths(1) [of twoPixels] by (auto simp: in_set_conv_nth)
  have "countR (rawCounts twoPixels) ! j \<le> 1"
    unfolding countR_rawCounts [OF j(1)] px by simp
  then have "real (countR (rawCounts twoPixels) ! j) \<le> 1" by simp
  moreover have "2 \<le> real m" using m2 by simp
  ultimately have "real (countR (rawCounts twoPixels) ! j) / real m \<le> 1 / 2"
    by (intro frac_le) simp_all
  then show ?thesis using j(2) by simp
qed

text \<open>
  Claim C10.  The four histograms are divided by one number, the largest bin count found
  in any of the four.  For every image (positive dimensions, four bytes per pixel) that
  number is positive, every bin of every histogram lies in \<open>[0, 1]\<close>, and some bin among
  the four histograms is exactly 1.  One histogram alone need not reach 1: for the two
  pixels black and pure red no bin of the red histogram exceeds \<open>1/2\<close>.
\<close>

theorem C10_joint_normalisation:
  assumes "wellFormed img"
  shows "0 < maxHistValue (rawCounts img) \<and>
    allBins (histogram (analyzeImageData img)) =
      map (\<lambda>v. real v / real (maxHistValue (rawCounts img)))
        (countR (rawCounts img) @ countG (rawCounts img) @ countB (rawCounts img) @
         countLuminance (rawCounts img)) \<and>
    length (hist_r (histogram (analyzeImageData img))) = 256 \<and>
    length (hist_g (histogram (analyzeImageData img))) = 256 \<and>
    length (hist_b (histogram (analyzeImageData img))) = 256 \<and>
    length (hist_luminance (histogram (analyzeImageData img))) = 256 \<and>
    (\<forall>v \<in> set (allBins (histogram (analyzeImageData img))). 0 \<le> v \<and> v \<le> 1) \<and>
    1 \<in> set (allBins (histogram (analyzeImageData img))) \<and>
    wellFormed twoPixels \<and>
    (\<forall>v \<in> set (hist_r (histogram (analyzeImageData twoPixels))). v \<le> 1 / 2)"
proof -
  define m where "m = maxHistValue (rawCounts img)"
  define cs where "cs = countR (rawCounts img) @ countG (rawCounts img) @
      countB (rawCounts img) @ countLuminance (rawCounts img)"
  have pos: "0 < m" unfolding m_def by (rule maxHistValue_pos [OF wellFormed_length [OF assms]])
  have bins: "allBins (histogram (analyzeImageData img)) = map (\<lambda>v. real v / real m) cs"
    unfolding m_def cs_def by (rule allBins_analyzeImageData [OF pos [unfolded m_def]])
  have lens: "length (hist_r (histogram (analyzeImageData img))) = 256"
    "length (hist_g (histogram (analyzeImageData img))) = 256"
    "length (hist_b (histogram (analyzeImageData img))) = 256"
    "length (hist_luminance (histogram (analyzeImageData img))) = 256"
    by (simp_all add: histogram_analyzeImageData normalizeHistogram_def rawCounts_lengths)
  have range: "0 \<le> v \<and> v \<le> 1" if "v \<in> set (allBins (histogram (analyzeImageData img)))" for v
  proof -
    from that obtain c where c: "c \<in> set cs" "v = real c / real m" unfolding bins by auto
    have "c \<le> m" using c(1) unfolding cs_def m_def by (rule maxHistValue_ge)
    then show ?thesis using pos c(2) by simp
  qed
  have "countR (rawCounts img) \<noteq> []" using rawCounts_lengths(1) [of img] by auto
  then have "m \<in> set cs" unfolding m_def cs_def by (rule maxHistValue_in)
  then have "real m / real m \<in> set (map (\<lambda>v. real v / real m) cs)" by (simp add: image_iff) blast
  then have one: "1 \<in> set (allBins (histogram (analyzeImageData img)))"
    using pos unfolding bins by simp
  show ?thesis
    using pos bins lens range one wellFormed_twoPixels twoPixels_red_bins
    unfolding m_def cs_def by blast
qed

theorem C10_joint_normalisation_witness:
  "wellFormed twoPixels \<and>
   0 < maxHistValue (rawCounts twoPixels) \<and>
   length (hist_r (histogram (analyzeImageData twoPixels))) = 256 \<and>
   1 \<in> set (allBins (histogram (analyzeImageData twoPixels)))"
proof -
  note t = C10_joint_normalisation [OF wellFormed_twoPixels]
  have t1: "0 < maxHistValue (rawCounts twoPixels)" by (rule conjunct1 [OF t])
  have t3: "length (hist_r (histogram (analyzeImageData twoPixels))) = 256"
    by (rule conjunct1 [OF conjunct2 [OF conjunct2 [OF t]]])
  have t8: "1 \<in> set (allBins (histogram (analyzeImageData twoPixels)))"
    using t by blast
  show ?thesis using wellFormed_twoPixels t1 t3 t8 by (intro conjI)
qed

section \<open>Properties of the pipeline in binary64 arithmetic\<close>

lemma roundEven_error: "\<bar>of_int (roundEven y) - y\<bar> \<le> 1 / 2"
proof -
  have "of_int \<lfloor>y\<rfloor> \<le> y" "y < of_int \<lfloor>y\<rfloor> + 1" by linarith+
  then show ?thesis by (auto simp: roundEven_def Let_def)
qed

lemma ulpExp_eq:
  assumes "x \<noteq> 0" "2 powi e \<le> \<bar>x\<bar>" "\<bar>x\<bar> < 2 powi (e + 1)"
  shows "ulpExp x = max (e - 52) (- 1074)"
proof -
  have p: "(2::real) powr real_of_int k = 2 powi k" for k
    by (simp add: powr_real_of_int')
  have "2 powr real_of_int e \<le> \<bar>x\<bar> \<and> \<bar>x\<bar> < 2 powr real_of_int (e + 1)"
    using assms(2,3) unfolding p by simp
  then have "\<lfloor>log 2 \<bar>x\<bar>\<rfloor> = e"
    using assms(1) by (subst floor_log_eq_powr_iff) simp_all
  then show ?thesis by (simp add: ulpExp_def)
qed

lemma rnd_eval:
  assumes "x \<noteq> 0" "2 powi e \<le> \<bar>x\<bar>" "\<bar>x\<bar> < 2 powi (e + 1)" "- 1022 \<le> e"
  shows "rnd x = of_int (roundEven (x / 2 powi (e - 52))) * 2 powi (e - 52)"
proof -
  have "ulpExp x = e - 52" using ulpExp_eq [OF assms(1-3)] assms(4) by simp
  then show ?thesis using assms(1) by (simp add: rnd_def)
qed

lemma rnd_zero: "rnd 0 = 0" by (simp add: rnd_def)

lemma rnd_one: "rnd 1 = 1"
  by (subst rnd_eval [where e = 0]) (simp_all add: power_int_minus roundEven_def Let_def)

lemma rnd_half: "rnd (1 / 2) = 1 / 2"
  by (subst rnd_eval [where e = "- 1"]) (simp_all add: power_int_minus roundEven_def Let_def)

lemma rnd_minus_half: "rnd (- (1 / 2)) = - (1 / 2)"
  by (subst rnd_eval [where e = "- 1"]) (simp_all add: power_int_minus roundEven_def Let_def)

lemma rnd_tiny: "rnd (1 / 2 ^ 60) = 1 / 2 ^ 60"
  by (subst rnd_eval [where e = "- 60"]) (simp_all add: power_int_minus roundEven_def Let_def)

lemma rnd_tiny_minus_half: "rnd (1 / 2 ^ 60 - 1 / 2) = - (1 / 2)"
  by (subst rnd_eval [where e = "- 2"]) (simp_all add: power_int_minus roundEven_def Let_def)

lemma rnd_error:
  assumes "\<bar>x\<bar> < 2"
  shows "\<bar>rnd x - x\<bar> \<le> 1 / 2 ^ 53"
proof (cases "x = 0")
  case True
  then show ?thesis by (simp add: rnd_def)
next
  case False
  define q :: real where "q = 2 powi ulpExp x"
  have qpos: "0 < q" by (simp add: q_def)
  have "log 2 \<bar>x\<bar> < 1" using assms False by (simp add: log_less_one_cancel_iff)
  then have "\<lfloor>log 2 \<bar>x\<bar>\<rfloor> \<le> 0" by (simp add: floor_le_iff)
  then have "ulpExp x \<le> - 52" by (simp add: ulpExp_def)
  then have "q \<le> 2 powi (- 52)" unfolding q_def by (intro power_int_increasing) simp_all
  then have qle: "q \<le> 1 / 2 ^ 52" by (simp add: power_int_minus field_simps)
  have "rnd x - x = q * (of_int (roundEven (x / q)) - x / q)"
    using False qpos by (simp add: rnd_def q_def algebra_simps)
  then have "\<bar>rnd x - x\<bar> = q * \<bar>of_int (roundEven (x / q)) - x / q\<bar>"
    using qpos by (simp add: abs_mult)
  also have "\<dots> \<le> q * (1 / 2)"
    using qpos roundEven_error [of "x / q"] by (intro mult_left_mono) simp_all
  also have "\<dots> \<le> (1 / 2 ^ 52) * (1 / 2)" using qle by simp
  finally show ?thesis by simp
qed

lemma toDouble_small:
  assumes "\<bar>x\<bar> < 2"
  shows "toDouble (Fin x) = Fin (rnd x)"
proof -
  have "\<bar>rnd x\<bar> \<le> \<bar>x\<bar> + \<bar>rnd x - x\<bar>" by linarith
  then have "\<bar>rnd x\<bar> < 3" using rnd_error [OF assms] assms by simp
  moreover have "(3::real) < 2 ^ 1024" by simp
  ultimately have "\<not> 2 ^ 1024 \<le> \<bar>rnd x\<bar>" by linarith
  then show ?thesis by (simp add: toDouble_def Let_def)
qed

lemma toDouble_double: "isDouble x \<Longrightarrow> toDouble (Fin x) = Fin x"
  by (simp add: toDouble_def isDouble_def Let_def)


lemma lit_small: "\<bar>c\<bar> < 2 \<Longrightarrow> lit c = Fin (rnd c)"
  by (simp add: lit_def toDouble_small)

lemma dmul_zero: "dmul (Fin 0) (Fin r) = Fin 0"
  using toDouble_small [of 0] by (simp add: dmul_def rnd_zero)

lemma dmul_zero_lit: "\<bar>c\<bar> < 2 \<Longrightarrow> dmul (Fin 0) (lit c) = Fin 0"
  by (simp add: lit_small dmul_zero)

lemma double_one: "dadd (Fin 1) (Fin 0) = Fin 1" "dsub (Fin 1) (Fin 0) = Fin 1"
  "ddiv (Fin 1) (Fin 1) = Fin 1"
  using toDouble_small [of 1] by (simp_all add: dadd_def dsub_def ddiv_def jssub_def rnd_one)

lemma double_unchanged:
  assumes "isDouble v"
  shows "dadd (Fin v) (Fin 0) = Fin v" "dsub (Fin v) (Fin 0) = Fin v" "dmul (Fin v) (Fin 1) = Fin v"
  using toDouble_double [OF assms] by (simp_all add: dadd_def dsub_def dmul_def jssub_def)

lemma neutral_factor:
  "ddiv (dadd (Fin 1) (Fin 0)) (dsub (Fin 1) (dmul (Fin 0) (lit 0.99))) = Fin 1"
  "ddiv (Fin 1) (dadd (Fin 1) (dmul (Fin 0) (lit 0.2))) = Fin 1"
  "dadd (Fin 1) (dmul (Fin 0) (lit 0.2)) = Fin 1"
  by (simp_all add: dmul_zero_lit double_one)

lemma lggChannel64_neutral:
  assumes "isDouble v" "0 \<le> v" "v \<le> 1"
  shows "lggChannel64 (Fin v) (Fin 0) (Fin 0) (Fin 0) = Fin v"
proof -
  have s: "dsub (Fin 1) (Fin v) = Fin (rnd (1 - v))"
    using assms(2,3) toDouble_small [of "1 - v"] by (simp add: dsub_def jssub_def)
  have l: "dmul (dmul (Fin 0) (lit 0.1)) (dsub (Fin 1) (Fin v)) = Fin 0"
    unfolding s by (simp add: dmul_zero_lit dmul_zero)
  have "jspow (Fin v) (Fin 1) = Fin v"
    using assms(2) by (cases "v = 0") (simp_all add: finpow_def)
  then have p: "dpow (Fin v) (Fin 1) = Fin v"
    using toDouble_double [OF assms(1)] by (simp add: dpow_def)
  have m: "jsmax (Fin 0) (Fin v) = Fin v" using assms(2) by simp
  show ?thesis
    unfolding lggChannel64_def Let_def l
    using assms(2,3)
    by (simp add: double_unchanged [OF assms(1)] dmul_zero_lit double_one p clamp_Fin)
qed

lemma shChannel64_neutral: "shChannel64 (Fin 0) (Fin 0) (Fin v) = Fin v"
  by (simp add: shChannel64_def jsne_def)

lemma applyTemperature64_neutral:
  assumes "isDouble x" "0 \<le> x" "x \<le> 1" "isDouble y" "0 \<le> y" "y \<le> 1"
    "isDouble z" "0 \<le> z" "z \<le> 1"
  shows "applyTemperature64 (Fin x) (Fin y) (Fin z) (Fin 0) (Fin 0) = (Fin x, Fin y, Fin z)"
  unfolding applyTemperature64_def Let_def
  using assms
  by (simp add: dmul_zero_lit double_unchanged clamp_Fin)

lemma jsadd_commute: "jsadd x y = jsadd y x"
  by (cases x; cases y) simp_all

lemma pivot64:
  assumes "0 \<le> v" "v \<le> 1" "- (1 / 10) \<le> L" "L \<le> 11 / 10"
  shows "\<exists>o'. dadd (Fin L) (dmul (dsub (Fin v) (Fin L)) (Fin 1)) = Fin o' \<and>
           \<bar>o' - v\<bar> \<le> 3 / 2 ^ 53"
proof -
  define e :: real where "e = 1 / 2 ^ 53"
  have eps: "e \<le> 1 / 1000" by (simp add: e_def)
  define d where "d = rnd (v - L)"
  have b1: "\<bar>v - L\<bar> < 2" using assms by linarith
  have e1: "\<bar>d - (v - L)\<bar> \<le> e" unfolding d_def e_def by (rule rnd_error [OF b1])
  have s1: "dsub (Fin v) (Fin L) = Fin d"
    using toDouble_small [OF b1] by (simp add: dsub_def jssub_def d_def)
  define d' where "d' = rnd (d * 1)"
  have b2: "\<bar>d * 1\<bar> < 2" using e1 eps assms by linarith
  have e2: "\<bar>d' - d\<bar> \<le> e" using rnd_error [OF b2] by (simp add: d'_def e_def)
  have s2: "dmul (Fin d) (Fin 1) = Fin d'"
    using toDouble_small [OF b2] by (simp add: dmul_def d'_def)
  define o' where "o' = rnd (L + d')"
  have b3: "\<bar>L + d'\<bar> < 2" using e1 e2 eps assms by linarith
  have e3: "\<bar>o' - (L + d')\<bar> \<le> e" unfolding o'_def e_def by (rule rnd_error [OF b3])
  have s3: "dadd (Fin L) (Fin d') = Fin o'"
    using toDouble_small [OF b3] by (simp add: dadd_def o'_def)
  have "\<bar>o' - v\<bar> \<le> 3 * e" using e1 e2 e3 by linarith
  then have "\<bar>o' - v\<bar> \<le> 3 / 2 ^ 53" by (simp add: e_def)
  then show ?thesis unfolding s1 s2 s3 by blast
qed

lemma clamp_near:
  assumes "0 \<le> v" "v \<le> (1::real)" "\<bar>w - v\<bar> \<le> e"
  shows "\<bar>max 0 (min 1 w) - v\<bar> \<le> e" "0 \<le> max 0 (min 1 w)" "max 0 (min 1 w) \<le> 1"
  using assms by (auto simp: max_def min_def abs_le_iff)

lemma applyContrast64_neutral:
  assumes "0 \<le> v" "v \<le> 1"
  shows "\<exists>y. applyContrast64 (Fin v) (Fin 0) = Fin y \<and> 0 \<le> y \<and> y \<le> 1 \<and>
           \<bar>y - v\<bar> \<le> 3 / 2 ^ 53"
proof -
  obtain w where w: "dadd (Fin (1 / 2)) (dmul (dsub (Fin v) (Fin (1 / 2))) (Fin 1)) = Fin w"
      "\<bar>w - v\<bar> \<le> 3 / 2 ^ 53"
    using pivot64 [OF assms, of "1 / 2"] by auto
  have c: "dadd (dmul (dsub (Fin v) (Fin 0.5)) (Fin 1)) (Fin 0.5) = Fin w"
    using w(1) by (simp add: dadd_def jsadd_commute)
  show ?thesis
    unfolding applyContrast64_def Let_def neutral_factor c clamp_Fin
    using clamp_near [OF assms w(2)] by blast
qed


lemma scaled64:
  assumes "0 \<le> c" "c \<le> 6 / 10" "0 \<le> r" "r \<le> 1"
  shows "\<exists>p. dmul (lit c) (Fin r) = Fin p \<and> - (2 / 1000) \<le> p \<and> p \<le> c + 2 / 1000"
proof -
  define e :: real where "e = 1 / 2 ^ 53"
  have eps: "0 \<le> e" "e \<le> 1 / 1000" by (simp_all add: e_def)
  define c' where "c' = rnd c"
  have b0: "\<bar>c\<bar> < 2" using assms by linarith
  have e0: "\<bar>c' - c\<bar> \<le> e" unfolding c'_def e_def by (rule rnd_error [OF b0])
  have l: "lit c = Fin c'" unfolding c'_def by (rule lit_small [OF b0])
  have lo: "- e \<le> c' * r"
  proof (cases "0 \<le> c'")
    case True
    then have "0 \<le> c' * r" using assms(3) by simp
    then show ?thesis using eps(1) by linarith
  next
    case False
    then have "c' * 1 \<le> c' * r" using assms(4) by (intro mult_left_mono_neg) simp_all
    then show ?thesis using e0 assms(1) by linarith
  qed
  have hi: "c' * r \<le> c + e"
  proof (cases "0 \<le> c'")
    case True
    then have "c' * r \<le> c' * 1" using assms(4) by (intro mult_left_mono) simp_all
    then show ?thesis using e0 by linarith
  next
    case False
    then have "c' * r \<le> 0" using assms(3) by (simp add: mult_le_0_iff)
    then show ?thesis using assms(1) eps(1) by linarith
  qed
  have b1: "\<bar>c' * r\<bar> < 2" using lo hi assms(2) eps by linarith
  define p where "p = rnd (c' * r)"
  have e1: "\<bar>p - c' * r\<bar> \<le> e" unfolding p_def e_def by (rule rnd_error [OF b1])
  have "dmul (lit c) (Fin r) = Fin p"
    unfolding l using toDouble_small [OF b1] by (simp add: dmul_def p_def)
  moreover have "- (2 / 1000) \<le> p \<and> p \<le> c + 2 / 1000" using e1 lo hi eps by linarith
  ultimately show ?thesis by blast
qed

lemma luma64_bound:
  assumes "0 \<le> r" "r \<le> 1" "0 \<le> g" "g \<le> 1" "0 \<le> b" "b \<le> 1"
  shows "\<exists>L. luma64 (Fin r) (Fin g) (Fin b) = Fin L \<and> - (1 / 10) \<le> L \<and> L \<le> 11 / 10"
proof -
  define e :: real where "e = 1 / 2 ^ 53"
  have eps: "0 \<le> e" "e \<le> 1 / 1000" by (simp_all add: e_def)
  obtain p1 where p1: "dmul (lit 0.299) (Fin r) = Fin p1" "- (2 / 1000) \<le> p1"
      "p1 \<le> 301 / 1000"
    using scaled64 [where c = "0.299", OF _ _ assms(1,2)] by auto
  obtain p2 where p2: "dmul (lit 0.587) (Fin g) = Fin p2" "- (2 / 1000) \<le> p2"
      "p2 \<le> 589 / 1000"
    using scaled64 [where c = "0.587", OF _ _ assms(3,4)] by auto
  obtain p3 where p3: "dmul (lit 0.114) (Fin b) = Fin p3" "- (2 / 1000) \<le> p3"
      "p3 \<le> 116 / 1000"
    using scaled64 [where c = "0.114", OF _ _ assms(5,6)] by auto
  define s1 where "s1 = rnd (p1 + p2)"
  have b1: "\<bar>p1 + p2\<bar> < 2" using p1(2,3) p2(2,3) by linarith
  have e1: "\<bar>s1 - (p1 + p2)\<bar> \<le> e" unfolding s1_def e_def by (rule rnd_error [OF b1])
  have a1: "dadd (Fin p1) (Fin p2) = Fin s1"
    using toDouble_small [OF b1] by (simp add: dadd_def s1_def)
  define L where "L = rnd (s1 + p3)"
  have b2: "\<bar>s1 + p3\<bar> < 2" using e1 eps p1(2,3) p2(2,3) p3(2,3) by linarith
  have e2: "\<bar>L - (s1 + p3)\<bar> \<le> e" unfolding L_def e_def by (rule rnd_error [OF b2])
  have a2: "dadd (Fin s1) (Fin p3) = Fin L"
    using toDouble_small [OF b2] by (simp add: dadd_def L_def)
  have "luma64 (Fin r) (Fin g) (Fin b) = Fin L"
    unfolding luma64_def p1(1) p2(1) p3(1) a1 a2 ..
  moreover have "- (1 / 10) \<le> L \<and> L \<le> 11 / 10"
    using e1 e2 eps p1(2,3) p2(2,3) p3(2,3) by linarith
  ultimately show ?thesis by blast
qed

lemma applySaturation64_neutral:
  assumes "0 \<le> r" "r \<le> 1" "0 \<le> g" "g \<le> 1" "0 \<le> b" "b \<le> 1"
  shows "\<exists>r' g' b'. applySaturation64 (Fin r) (Fin g) (Fin b) (Fin 0) = (Fin r', Fin g', Fin b') \<and>
           0 \<le> r' \<and> r' \<le> 1 \<and> \<bar>r' - r\<bar> \<le> 3 / 2 ^ 53 \<and>
           0 \<le> g' \<and> g' \<le> 1 \<and> \<bar>g' - g\<bar> \<le> 3 / 2 ^ 53 \<and>
           0 \<le> b' \<and> b' \<le> 1 \<and> \<bar>b' - b\<bar> \<le> 3 / 2 ^ 53"
proof -
  obtain L where L: "luma64 (Fin r) (Fin g) (Fin b) = Fin L" "- (1 / 10) \<le> L" "L \<le> 11 / 10"
    using luma64_bound [OF assms] by auto
  obtain wr where wr: "dadd (Fin L) (dmul (dsub (Fin r) (Fin L)) (Fin 1)) = Fin wr"
      "\<bar>wr - r\<bar> \<le> 3 / 2 ^ 53"
    using pivot64 [OF assms(1,2) L(2,3)] by auto
  obtain wg where wg: "dadd (Fin L) (dmul (dsub (Fin g) (Fin L)) (Fin 1)) = Fin wg"
      "\<bar>wg - g\<bar> \<le> 3 / 2 ^ 53"
    using pivot64 [OF assms(3,4) L(2,3)] by auto
  obtain wb where wb: "dadd (Fin L) (dmul (dsub (Fin b) (Fin L)) (Fin 1)) = Fin wb"
      "\<bar>wb - b\<bar> \<le> 3 / 2 ^ 53"
    using pivot64 [OF assms(5,6) L(2,3)] by auto
  have "applySaturation64 (Fin r) (Fin g) (Fin b) (Fin 0)
      = (Fin (max 0 (min 1 wr)), Fin (max 0 (min 1 wg)), Fin (max 0 (min 1 wb)))"
    unfolding applySaturation64_def Let_def L(1) double_one wr(1) wg(1) wb(1) clamp_Fin ..
  then show ?thesis
    using clamp_near [OF assms(1,2) wr(2)] clamp_near [OF assms(3,4) wg(2)]
      clamp_near [OF assms(5,6) wb(2)] by blast
qed

lemma transformColor64_neutral:
  assumes "neutralParams p"
    and "isDouble x" "0 \<le> x" "x \<le> 1"
    and "isDouble y" "0 \<le> y" "y \<le> 1"
    and "isDouble z" "0 \<le> z" "z \<le> 1"
  shows "\<exists>x' y' z'. transformColor64 (Fin x) (Fin y) (Fin z) p = (Fin x', Fin y', Fin z') \<and>
           0 \<le> x' \<and> x' \<le> 1 \<and> \<bar>x' - x\<bar> \<le> 6 / 2 ^ 53 \<and>
           0 \<le> y' \<and> y' \<le> 1 \<and> \<bar>y' - y\<bar> \<le> 6 / 2 ^ 53 \<and>
           0 \<le> z' \<and> z' \<le> 1 \<and> \<bar>z' - z\<bar> \<le> 6 / 2 ^ 53"
proof -
  obtain cx where cx: "applyContrast64 (Fin x) (Fin 0) = Fin cx" "0 \<le> cx" "cx \<le> 1"
      "\<bar>cx - x\<bar> \<le> 3 / 2 ^ 53"
    using applyContrast64_neutral [OF assms(3,4)] by auto
  obtain cy where cy: "applyContrast64 (Fin y) (Fin 0) = Fin cy" "0 \<le> cy" "cy \<le> 1"
      "\<bar>cy - y\<bar> \<le> 3 / 2 ^ 53"
    using applyContrast64_neutral [OF assms(6,7)] by auto
  obtain cz where cz: "applyContrast64 (Fin z) (Fin 0) = Fin cz" "0 \<le> cz" "cz \<le> 1"
      "\<bar>cz - z\<bar> \<le> 3 / 2 ^ 53"
    using applyContrast64_neutral [OF assms(9,10)] by auto
  obtain x' y' z' where s: "applySaturation64 (Fin cx) (Fin cy) (Fin cz) (Fin 0)
        = (Fin x', Fin y', Fin z')"
      "0 \<le> x'" "x' \<le> 1" "\<bar>x' - cx\<bar> \<le> 3 / 2 ^ 53"
      "0 \<le> y'" "y' \<le> 1" "\<bar>y' - cy\<bar> \<le> 3 / 2 ^ 53"
      "0 \<le> z'" "z' \<le> 1" "\<bar>z' - cz\<bar> \<le> 3 / 2 ^ 53"
    using applySaturation64_neutral [OF cx(2,3) cy(2,3) cz(2,3)] by auto
  have t: "transformColor64 (Fin x) (Fin y) (Fin z) p = (Fin x', Fin y', Fin z')"
    using assms(1)
    by (simp add: transformColor64_def neutralParams_def zeroRgb_def applyLiftGammaGain64_def
        applyShadowsHighlights64_def lggChannel64_neutral [OF assms(2-4)]
        lggChannel64_neutral [OF assms(5-7)] lggChannel64_neutral [OF assms(8-10)]
        shChannel64_neutral applyTemperature64_neutral [OF assms(2-10)] cx(1) cy(1) cz(1) s(1))
  have "\<bar>x' - x\<bar> \<le> 6 / 2 ^ 53" using s(4) cx(4) by linarith
  moreover have "\<bar>y' - y\<bar> \<le> 6 / 2 ^ 53" using s(7) cy(4) by linarith
  moreover have "\<bar>z' - z\<bar> \<le> 6 / 2 ^ 53" using s(10) cz(4) by linarith
  ultimately show ?thesis using t s(2,3,5,6,8,9) by blast
qed

lemma toDouble_eval: "\<bar>x\<bar> < 2 \<Longrightarrow> rnd x = y \<Longrightarrow> toDouble (Fin x) = Fin y"
  using toDouble_small [of x] by simp

lemma isDouble_tiny: "isDouble (1 / 2 ^ 60)"
  unfolding isDouble_def
proof (rule conjI)
  show "rnd (1 / 2 ^ 60) = 1 / 2 ^ 60" by (rule rnd_tiny)
  show "\<bar>(1::real) / 2 ^ 60\<bar> < 2 ^ 1024" by simp
qed

lemma applyContrast64_tiny: "applyContrast64 (Fin (1 / 2 ^ 60)) (Fin 0) = Fin 0"
proof -
  have a: "dsub (Fin (1 / 2 ^ 60)) (Fin 0.5) = Fin (- (1 / 2))"
    unfolding dsub_def jssub_def jsneg.simps jsadd.simps
  proof (rule toDouble_eval)
    show "\<bar>1 / 2 ^ 60 + - 0.5\<bar> < (2::real)" by simp
    show "rnd (1 / 2 ^ 60 + - 0.5) = - (1 / 2)"
      by (subst rnd_eval [where e = "- 2"]) (simp_all add: power_int_minus roundEven_def Let_def)
  qed
  have m: "dmul (Fin (- (1 / 2))) (Fin 1) = Fin (- (1 / 2))"
    unfolding dmul_def jsmul.simps
  proof (rule toDouble_eval)
    show "\<bar>- (1 / 2) * 1\<bar> < (2::real)" by simp
    show "rnd (- (1 / 2) * 1) = - (1 / 2)" using rnd_minus_half by simp
  qed
  have s: "dadd (Fin (- (1 / 2))) (Fin 0.5) = Fin 0"
    unfolding dadd_def jsadd.simps
  proof (rule toDouble_eval)
    show "\<bar>- (1 / 2) + 0.5\<bar> < (2::real)" by simp
    show "rnd (- (1 / 2) + 0.5) = 0" using rnd_zero by simp
  qed
  show ?thesis
    unfolding applyContrast64_def Let_def neutral_factor a m s by (simp add: clamp_Fin)
qed

lemma applySaturation64_zero: "applySaturation64 (Fin 0) (Fin 0) (Fin 0) (Fin 0) = (Fin 0, Fin 0, Fin 0)"
proof -
  have z: "toDouble (Fin 0) = Fin 0" using toDouble_small [of 0] by (simp add: rnd_zero)
  have o: "toDouble (Fin 1) = Fin 1" using toDouble_small [of 1] by (simp add: rnd_one)
  show ?thesis
    by (simp add: applySaturation64_def luma64_def Let_def lit_small dmul_def dadd_def dsub_def
        jssub_def z o clamp_Fin)
qed

lemma transformColor64_tiny:
  "transformColor64 (Fin (1 / 2 ^ 60)) (Fin (1 / 2 ^ 60)) (Fin (1 / 2 ^ 60)) defaultParams
     = (Fin 0, Fin 0, Fin 0)"
proof -
  have r: "0 \<le> (1::real) / 2 ^ 60" "(1::real) / 2 ^ 60 \<le> 1" by simp_all
  show ?thesis
    by (simp only: transformColor64_def defaultParams_def zeroRgb_def applyLiftGammaGain64_def
        applyShadowsHighlights64_def LUTParams.simps rgb.simps prod.case
        lggChannel64_neutral [OF isDouble_tiny r] shChannel64_neutral
        applyTemperature64_neutral [OF isDouble_tiny r isDouble_tiny r isDouble_tiny r]
        applyContrast64_tiny applySaturation64_zero)
qed


lemma rnd_tenth: "rnd (3602879701896397 / 2 ^ 55) = 3602879701896397 / 2 ^ 55"
  by (subst rnd_eval [where e = "- 4"]) (simp_all add: power_int_minus roundEven_def Let_def)

lemma isDouble_tenth: "isDouble (3602879701896397 / 2 ^ 55)"
  unfolding isDouble_def
proof (rule conjI)
  show "rnd (3602879701896397 / 2 ^ 55) = 3602879701896397 / 2 ^ 55" by (rule rnd_tenth)
  show "\<bar>(3602879701896397 / 2 ^ 55 :: real)\<bar> < 2 ^ 1024" by simp
qed

lemma applyContrast64_tenth:
  "applyContrast64 (Fin (3602879701896397 / 2 ^ 55)) (Fin 0) = Fin (900719925474099 / 2 ^ 53)"
proof -
  have ca: "dsub (Fin (3602879701896397 / 2 ^ 55)) (Fin 0.5) = Fin (- (3602879701896397 / 2 ^ 53))"
    unfolding dsub_def jssub_def jsneg.simps jsadd.simps
    apply (rule toDouble_eval)
     apply simp
    apply (subst rnd_eval [where e = "- 2"])
        apply (simp_all add: power_int_minus roundEven_def Let_def)
    done
  have cm: "dmul (Fin (- (3602879701896397 / 2 ^ 53))) (Fin 1) = Fin (- (3602879701896397 / 2 ^ 53))"
    unfolding dmul_def jsmul.simps
    apply (rule toDouble_eval)
     apply simp
    apply (subst rnd_eval [where e = "- 2"])
        apply (simp_all add: power_int_minus roundEven_def Let_def)
    done
  have cy: "dadd (Fin (- (3602879701896397 / 2 ^ 53))) (Fin 0.5) = Fin (900719925474099 / 2 ^ 53)"
    unfolding dadd_def jsadd.simps
    apply (rule toDouble_eval)
     apply simp
    apply (subst rnd_eval [where e = "- 4"])
        apply (simp_all add: power_int_minus roundEven_def Let_def)
    done
  show ?thesis
    unfolding applyContrast64_def Let_def neutral_factor ca cm cy by (simp add: clamp_Fin)
qed

lemma applySaturation64_tenth:
  "applySaturation64 (Fin (900719925474099 / 2 ^ 53)) (Fin (900719925474099 / 2 ^ 53)) (Fin (900719925474099 / 2 ^ 53)) (Fin 0)
     = (Fin (900719925474099 / 2 ^ 53), Fin (900719925474099 / 2 ^ 53), Fin (900719925474099 / 2 ^ 53))"
proof -
  have l1: "lit 0.299 = Fin (5386305154335113 / 2 ^ 54)"
    unfolding lit_def
    apply (rule toDouble_eval)
     apply simp
    apply (subst rnd_eval [where e = "- 2"])
        apply (simp_all add: power_int_minus roundEven_def Let_def)
    done
  have l2: "lit 0.587 = Fin (2643612981266481 / 2 ^ 52)"
    unfolding lit_def
    apply (rule toDouble_eval)
     apply simp
    apply (subst rnd_eval [where e = "- 1"])
        apply (simp_all add: power_int_minus roundEven_def Let_def)
    done
  have l3: "lit 0.114 = Fin (8214565720323785 / 2 ^ 56)"
    unfolding lit_def
    apply (rule toDouble_eval)
     apply simp
    apply (subst rnd_eval [where e = "- 4"])
        apply (simp_all add: power_int_minus roundEven_def Let_def)
    done
  have p1: "dmul (Fin (5386305154335113 / 2 ^ 54)) (Fin (900719925474099 / 2 ^ 53)) = Fin (8618088246936179 / 2 ^ 58)"
    unfolding dmul_def jsmul.simps
    apply (rule toDouble_eval)
     apply simp
    apply (subst rnd_eval [where e = "- 6"])
        apply (simp_all add: power_int_minus roundEven_def Let_def)
    done
  have p2: "dmul (Fin (2643612981266481 / 2 ^ 52)) (Fin (900719925474099 / 2 ^ 53)) = Fin (8459561540052737 / 2 ^ 57)"
    unfolding dmul_def jsmul.simps
    apply (rule toDouble_eval)
     apply simp
    apply (subst rnd_eval [where e = "- 5"])
        apply (simp_all add: power_int_minus roundEven_def Let_def)
    done
  have p3: "dmul (Fin (8214565720323785 / 2 ^ 56)) (Fin (900719925474099 / 2 ^ 53)) = Fin (6571652576259027 / 2 ^ 59)"
    unfolding dmul_def jsmul.simps
    apply (rule toDouble_eval)
     apply simp
    apply (subst rnd_eval [where e = "- 7"])
        apply (simp_all add: power_int_minus roundEven_def Let_def)
    done
  have s1: "dadd (Fin (8618088246936179 / 2 ^ 58)) (Fin (8459561540052737 / 2 ^ 57)) = Fin (6384302831760413 / 2 ^ 56)"
    unfolding dadd_def jsadd.simps
    apply (rule toDouble_eval)
     apply simp
    apply (subst rnd_eval [where e = "- 4"])
        apply (simp_all add: power_int_minus roundEven_def Let_def)
    done
  have sL: "dadd (Fin (6384302831760413 / 2 ^ 56)) (Fin (6571652576259027 / 2 ^ 59)) = Fin (7205759403792791 / 2 ^ 56)"
    unfolding dadd_def jsadd.simps
    apply (rule toDouble_eval)
     apply simp
    apply (subst rnd_eval [where e = "- 4"])
        apply (simp_all add: power_int_minus roundEven_def Let_def)
    done
  have sd: "dsub (Fin (900719925474099 / 2 ^ 53)) (Fin (7205759403792791 / 2 ^ 56)) = Fin (1 / 2 ^ 56)"
    unfolding dsub_def jssub_def jsneg.simps jsadd.simps
    apply (rule toDouble_eval)
     apply simp
    apply (subst rnd_eval [where e = "- 56"])
        apply (simp_all add: power_int_minus roundEven_def Let_def)
    done
  have sm: "dmul (Fin (1 / 2 ^ 56)) (Fin 1) = Fin (1 / 2 ^ 56)"
    unfolding dmul_def jsmul.simps
    apply (rule toDouble_eval)
     apply simp
    apply (subst rnd_eval [where e = "- 56"])
        apply (simp_all add: power_int_minus roundEven_def Let_def)
    done
  have so: "dadd (Fin (7205759403792791 / 2 ^ 56)) (Fin (1 / 2 ^ 56)) = Fin (900719925474099 / 2 ^ 53)"
    unfolding dadd_def jsadd.simps
    apply (rule toDouble_eval)
     apply simp
    apply (subst rnd_eval [where e = "- 4"])
        apply (simp_all add: power_int_minus roundEven_def Let_def)
    done
  show ?thesis
    unfolding applySaturation64_def luma64_def Let_def l1 l2 l3 p1 p2 p3 s1 sL double_one
      sd sm so
    by (simp add: clamp_Fin)
qed

lemma transformColor64_tenth:
  "transformColor64 (Fin (3602879701896397 / 2 ^ 55)) (Fin (3602879701896397 / 2 ^ 55)) (Fin (3602879701896397 / 2 ^ 55)) defaultParams
     = (Fin (900719925474099 / 2 ^ 53), Fin (900719925474099 / 2 ^ 53), Fin (900719925474099 / 2 ^ 53))"
proof -
  have r: "0 \<le> (3602879701896397 / 2 ^ 55 :: real)" "(3602879701896397 / 2 ^ 55 :: real) \<le> 1" by simp_all
  show ?thesis
    by (simp only: transformColor64_def defaultParams_def zeroRgb_def applyLiftGammaGain64_def
        applyShadowsHighlights64_def LUTParams.simps rgb.simps prod.case
        lggChannel64_neutral [OF isDouble_tenth r] shChannel64_neutral
        applyTemperature64_neutral [OF isDouble_tenth r isDouble_tenth r isDouble_tenth r]
        applyContrast64_tenth applySaturation64_tenth)
qed

lemma rnd_tenth_literal: "rnd (1 / 10) = 3602879701896397 / 2 ^ 55"
  by (subst rnd_eval [where e = "- 4"]) (simp_all add: power_int_minus roundEven_def Let_def)

lemma lit_tenth: "lit (1 / 10) = Fin (3602879701896397 / 2 ^ 55)"
  unfolding lit_def
proof (rule toDouble_eval)
  show "\<bar>1 / 10\<bar> < (2::real)" by simp
  show "rnd (1 / 10) = 3602879701896397 / 2 ^ 55" by (rule rnd_tenth_literal)
qed

lemma isDouble_zero: "isDouble 0"
  by (simp add: isDouble_def rnd_zero)

lemma isDouble_half: "isDouble (1 / 2)"
  by (simp add: isDouble_def rnd_half)

lemma isDouble_one: "isDouble 1"
  by (simp add: isDouble_def rnd_one)

lemma neutralParams_defaultParams: "neutralParams defaultParams"
  by (simp add: neutralParams_def defaultParams_def)

text \<open>
  Claim C1 (as amended).  With every parameter at zero, \<open>transformColor\<close> is the identity on
  the unit cube when the arithmetic is exact.  In binary64 arithmetic it is the identity up
  to rounding: for every input triple of binary64 numbers in \<open>[0, 1]\<close> the result is a triple
  of numbers in \<open>[0, 1]\<close>, and each channel of the result differs from the channel of the input
  by at most \<open>6 / 2\<^sup>5\<^sup>3\<close>.
\<close>

theorem C1_neutral_near_identity:
  assumes "neutralParams p" "0 \<le> x" "x \<le> 1" "0 \<le> y" "y \<le> 1" "0 \<le> z" "z \<le> 1"
  shows "transformColor (Fin x) (Fin y) (Fin z) p = (Fin x, Fin y, Fin z) \<and>
    (isDouble x \<and> isDouble y \<and> isDouble z \<longrightarrow>
      (\<exists>x' y' z'. transformColor64 (Fin x) (Fin y) (Fin z) p = (Fin x', Fin y', Fin z') \<and>
         0 \<le> x' \<and> x' \<le> 1 \<and> \<bar>x' - x\<bar> \<le> 6 / 2 ^ 53 \<and>
         0 \<le> y' \<and> y' \<le> 1 \<and> \<bar>y' - y\<bar> \<le> 6 / 2 ^ 53 \<and>
         0 \<le> z' \<and> z' \<le> 1 \<and> \<bar>z' - z\<bar> \<le> 6 / 2 ^ 53))"
proof (intro conjI impI)
  show "transformColor (Fin x) (Fin y) (Fin z) p = (Fin x, Fin y, Fin z)"
    by (rule transformColor_neutral_Fin [OF assms(2-7) assms(1)])
next
  assume d: "isDouble x \<and> isDouble y \<and> isDouble z"
  then have dx: "isDouble x" and dy: "isDouble y" and dz: "isDouble z" by simp_all
  show "\<exists>x' y' z'. transformColor64 (Fin x) (Fin y) (Fin z) p = (Fin x', Fin y', Fin z') \<and>
         0 \<le> x' \<and> x' \<le> 1 \<and> \<bar>x' - x\<bar> \<le> 6 / 2 ^ 53 \<and>
         0 \<le> y' \<and> y' \<le> 1 \<and> \<bar>y' - y\<bar> \<le> 6 / 2 ^ 53 \<and>
         0 \<le> z' \<and> z' \<le> 1 \<and> \<bar>z' - z\<bar> \<le> 6 / 2 ^ 53"
    by (rule transformColor64_neutral [OF assms(1) dx assms(2,3) dy assms(4,5) dz assms(6,7)])
qed

theorem C1_neutral_near_identity_witness:
  "neutralParams defaultParams \<and> isDouble 0 \<and> isDouble (1 / 2) \<and> isDouble 1 \<and>
   transformColor (Fin 0) (Fin (1 / 2)) (Fin 1) defaultParams = (Fin 0, Fin (1 / 2), Fin 1) \<and>
   (\<exists>x' y' z'. transformColor64 (Fin 0) (Fin (1 / 2)) (Fin 1) defaultParams
        = (Fin x', Fin y', Fin z') \<and>
      0 \<le> x' \<and> x' \<le> 1 \<and> \<bar>x' - 0\<bar> \<le> 6 / 2 ^ 53 \<and>
      0 \<le> y' \<and> y' \<le> 1 \<and> \<bar>y' - 1 / 2\<bar> \<le> 6 / 2 ^ 53 \<and>
      0 \<le> z' \<and> z' \<le> 1 \<and> \<bar>z' - 1\<bar> \<le> 6 / 2 ^ 53)"
proof -
  have r: "(0::real) \<le> 0" "(0::real) \<le> 1" "(0::real) \<le> 1 / 2" "(1::real) / 2 \<le> 1"
      "(0::real) \<le> 1" "(1::real) \<le> 1" by simp_all
  note t = C1_neutral_near_identity [OF neutralParams_defaultParams r]
  have d: "isDouble 0 \<and> isDouble (1 / 2) \<and> isDouble 1"
    by (intro conjI isDouble_zero isDouble_half isDouble_one)
  show ?thesis
    by (intro conjI neutralParams_defaultParams isDouble_zero isDouble_half isDouble_one
        conjunct1 [OF t] mp [OF conjunct2 [OF t] d])
qed

text \<open>
  The claim as stated fails in the arithmetic of the code.  The binary64 number nearest to
  \<open>0.1\<close> is \<open>3602879701896397 / 2\<^sup>5\<^sup>5\<close>; the neutral contrast stage computes
  \<open>(0.1 - 0.5) * 1 + 0.5\<close>, which rounds to \<open>0.09999999999999998\<close>, and the result of the
  pipeline on the gray \<open>(0.1, 0.1, 0.1)\<close> is that number in every channel,
  \<open>900719925474099 / 2\<^sup>5\<^sup>3\<close>.  The input \<open>2\<^sup>-\<^sup>6\<^sup>0\<close> is returned as \<open>0\<close>.
\<close>

theorem C1_binary64_counterexample:
  "neutralParams defaultParams \<and>
   lit (1 / 10) = Fin (3602879701896397 / 2 ^ 55) \<and>
   isDouble (3602879701896397 / 2 ^ 55) \<and>
   0 \<le> (3602879701896397 / 2 ^ 55 :: real) \<and> (3602879701896397 / 2 ^ 55 :: real) \<le> 1 \<and>
   transformColor64 (Fin (3602879701896397 / 2 ^ 55)) (Fin (3602879701896397 / 2 ^ 55))
       (Fin (3602879701896397 / 2 ^ 55)) defaultParams
     = (Fin (900719925474099 / 2 ^ 53), Fin (900719925474099 / 2 ^ 53),
        Fin (900719925474099 / 2 ^ 53)) \<and>
   (900719925474099 / 2 ^ 53 :: real) \<noteq> 3602879701896397 / 2 ^ 55 \<and>
   isDouble (1 / 2 ^ 60) \<and>
   transformColor64 (Fin (1 / 2 ^ 60)) (Fin (1 / 2 ^ 60)) (Fin (1 / 2 ^ 60)) defaultParams
     = (Fin 0, Fin 0, Fin 0)"
proof -
  have r: "0 \<le> (3602879701896397 / 2 ^ 55 :: real)" "(3602879701896397 / 2 ^ 55 :: real) \<le> 1"
    by simp_all
  have ne: "(900719925474099 / 2 ^ 53 :: real) \<noteq> 3602879701896397 / 2 ^ 55" by simp
  show ?thesis
    by (intro conjI neutralParams_defaultParams lit_tenth isDouble_tenth r
        transformColor64_tenth ne isDouble_tiny transformColor64_tiny)
qed

end
